theory Spec2Isabelle
  imports Complex_Main
begin

section \<open>Python values and exceptions\<close>

text \<open>
  The exceptions that the analysed functions can raise or catch. A function that may raise
  returns \<open>exn + 'a\<close>, with \<open>Inl\<close> for the raised exception.
\<close>

datatype exn = KeyError | ZeroDivisionError | ValueError | TypeError | OverflowError

definition bind_exn :: "exn + 'a \<Rightarrow> ('a \<Rightarrow> exn + 'b) \<Rightarrow> exn + 'b" where
  "bind_exn m f = (case m of Inl e \<Rightarrow> Inl e | Inr x \<Rightarrow> f x)"

text \<open>A comprehension or loop whose body may raise: the first exception ends it.\<close>

fun map_exn :: "('a \<Rightarrow> exn + 'b) \<Rightarrow> 'a list \<Rightarrow> exn + 'b list" where
  "map_exn f [] = Inr []"
| "map_exn f (x # xs) =
     bind_exn (f x) (\<lambda>y. bind_exn (map_exn f xs) (\<lambda>ys. Inr (y # ys)))"

text \<open>
  A Python \<open>float\<close> is read as a real number: the rounding of sums, differences, products
  and quotients is not modelled, and they are taken to stay in the range of doubles
  (infinities and NaN do not occur). The range is modelled where the code can leave it, in
  the power \<open>x ** y\<close> below. True division of floats raises \<open>ZeroDivisionError\<close> on a zero
  divisor.
\<close>

definition float_truediv :: "real \<Rightarrow> real \<Rightarrow> exn + real" where
  "float_truediv a b = (if b = 0 then Inl ZeroDivisionError else Inr (a / b))"

text \<open>
  Numbers computed by the analysis are floats or, where a negative float is raised to a
  fractional power, complex numbers (Python 3 returns a \<open>complex\<close> there instead of raising).
\<close>

datatype pynum = PFloat real | PComplex complex

definition to_complex :: "pynum \<Rightarrow> complex" where
  "to_complex v = (case v of PFloat a \<Rightarrow> complex_of_real a | PComplex c \<Rightarrow> c)"

definition py_add :: "pynum \<Rightarrow> pynum \<Rightarrow> pynum" where
  "py_add v w =
     (case (v, w) of
        (PFloat a, PFloat b) \<Rightarrow> PFloat (a + b)
      | _ \<Rightarrow> PComplex (to_complex v + to_complex w))"

definition py_sub :: "pynum \<Rightarrow> pynum \<Rightarrow> pynum" where
  "py_sub v w =
     (case (v, w) of
        (PFloat a, PFloat b) \<Rightarrow> PFloat (a - b)
      | _ \<Rightarrow> PComplex (to_complex v - to_complex w))"

definition py_truediv :: "pynum \<Rightarrow> pynum \<Rightarrow> exn + pynum" where
  "py_truediv v w =
     (case (v, w) of
        (PFloat a, PFloat b) \<Rightarrow> bind_exn (float_truediv a b) (\<lambda>r. Inr (PFloat r))
      | _ \<Rightarrow> if to_complex w = 0 then Inl ZeroDivisionError
             else Inr (PComplex (to_complex v / to_complex w)))"

definition py_abs :: "pynum \<Rightarrow> real" where
  "py_abs v = (case v of PFloat a \<Rightarrow> \<bar>a\<bar> | PComplex c \<Rightarrow> cmod c)"

text \<open>The builtin \<open>sum\<close>: starts from 0 and adds from the left.\<close>

definition py_sum :: "pynum list \<Rightarrow> pynum" where
  "py_sum vs = foldl py_add (PFloat 0) vs"

text \<open>
  \<open>x ** y\<close> on floats: anything to the power 0 is 1; 0 to a negative power raises
  \<open>ZeroDivisionError\<close>; a result that rounds beyond the largest double
  \<open>2 ^ 1024 - 2 ^ 971\<close>, that is one of magnitude \<open>2 ^ 1024 - 2 ^ 970\<close> or more, raises
  \<open>OverflowError\<close>; a result of magnitude at most \<open>2 ^ -1075\<close>, half the smallest positive
  double, is 0.0; a negative base with a non-integral exponent gives the complex number of
  modulus \<open>|x| ** y\<close> and phase \<open>pi * y\<close>; a negative base with an integral exponent keeps the
  sign the integer power has.
\<close>

definition FLOAT_OVERFLOW :: real where
  "FLOAT_OVERFLOW = 2 ^ 1024 - 2 ^ 970"

definition FLOAT_UNDERFLOW :: real where
  "FLOAT_UNDERFLOW = 1 / 2 ^ 1075"

definition float_pow :: "real \<Rightarrow> real \<Rightarrow> exn + pynum" where
  "float_pow x y =
     (if y = 0 then Inr (PFloat 1)
      else if x = 0 then (if y < 0 then Inl ZeroDivisionError else Inr (PFloat 0))
      else if FLOAT_OVERFLOW \<le> \<bar>x\<bar> powr y then Inl OverflowError
      else
        let r = (if \<bar>x\<bar> powr y \<le> FLOAT_UNDERFLOW then 0 else \<bar>x\<bar> powr y)
        in if x < 0 \<and> y \<noteq> of_int \<lfloor>y\<rfloor> then
             Inr (PComplex (complex_of_real r * cis (pi * y)))
           else if x < 0 then Inr (PFloat ((if even \<lfloor>y\<rfloor> then 1 else - 1) * r))
           else Inr (PFloat r))"

text \<open>
  A \<open>dict\<close> with string keys is an association list in insertion order (its keys are
  distinct). \<open>d[k]\<close> raises \<open>KeyError\<close> on a missing key, \<open>d.get(k)\<close> gives \<open>None\<close> and
  \<open>d.get(k, default)\<close> the default.
\<close>

definition dict_getitem :: "(string \<times> 'v) list \<Rightarrow> string \<Rightarrow> exn + 'v" where
  "dict_getitem d k = (case map_of d k of None \<Rightarrow> Inl KeyError | Some v \<Rightarrow> Inr v)"

definition dict_get :: "(string \<times> 'v) list \<Rightarrow> string \<Rightarrow> 'v \<Rightarrow> 'v" where
  "dict_get d k dflt = (case map_of d k of None \<Rightarrow> dflt | Some v \<Rightarrow> v)"

definition dict_contains :: "(string \<times> 'v) list \<Rightarrow> string \<Rightarrow> bool" where
  "dict_contains d k = (k \<in> set (map fst d))"

text \<open>Truth value of an optional dict: \<open>None\<close> and the empty dict are false.\<close>

definition falsy :: "'a list option \<Rightarrow> bool" where
  "falsy d = (case d of None \<Rightarrow> True | Some xs \<Rightarrow> xs = [])"

definition or_empty :: "'a list option \<Rightarrow> 'a list" where
  "or_empty d = (case d of None \<Rightarrow> [] | Some xs \<Rightarrow> xs)"

section \<open>config/settings.py\<close>

definition MATCH_TIME_TOLERANCE_MINUTES :: int where
  "MATCH_TIME_TOLERANCE_MINUTES = 12"

definition TEAM_SIMILARITY_THRESHOLD :: real where
  "TEAM_SIMILARITY_THRESHOLD = 85 / 100"

definition MINIMUM_EDGE_THRESHOLD :: real where
  "MINIMUM_EDGE_THRESHOLD = 25 / 1000"

definition KELLY_FRACTION :: real where
  "KELLY_FRACTION = 25 / 100"

definition MAX_STAKE_PERCENTAGE :: real where
  "MAX_STAKE_PERCENTAGE = 5 / 100"

section \<open>analysis/value_analyzer.py: edge and stake\<close>

definition calculate_edge :: "real \<Rightarrow> real \<Rightarrow> real" where
  "calculate_edge true_prob offered_odds = (true_prob * offered_odds) - 1"

text \<open>
  \<open>kelly_stake\<close>: the two divisions are written with their zero check, so that a crash would
  be a value \<open>Inl ZeroDivisionError\<close> of the model.
\<close>

definition kelly_stake :: "real \<Rightarrow> real \<Rightarrow> real \<Rightarrow> real \<Rightarrow> exn + real" where
  "kelly_stake edge odds bankroll kelly_fraction =
     (if edge \<le> 0 \<or> odds \<le> 1 then Inr 0
      else
        bind_exn (float_truediv (1 + edge) odds) (\<lambda>p.
          let q = 1 - p;
              b = odds - 1
          in bind_exn (float_truediv (b * p - q) b) (\<lambda>kelly.
               let fractional_kelly = max 0 (kelly * kelly_fraction)
               in Inr (min (fractional_kelly * bankroll) (bankroll * MAX_STAKE_PERCENTAGE)))))"

section \<open>Edge and implied probability in double precision\<close>

text \<open>
  Where a property is about exact equality of floats, the rounding matters. \<open>round_double\<close>
  is the rounding of IEEE-754 binary64 arithmetic: to the nearest double, ties to the even
  mantissa, with the subnormal numbers (the spacing never falls below \<open>2 ^ -1074\<close>); the
  result is taken to stay below the overflow threshold. Each arithmetic operation of the
  code rounds its exact result once.
\<close>

definition round_half_even :: "real \<Rightarrow> int" where
  "round_half_even x =
     (let n = \<lfloor>x\<rfloor>; r = x - of_int n
      in if r < 1 / 2 then n else if 1 / 2 < r then n + 1 else if even n then n else n + 1)"

definition ulp_exponent :: "real \<Rightarrow> int" where
  "ulp_exponent x = max (\<lfloor>log 2 \<bar>x\<bar>\<rfloor> - 52) (- 1074)"

definition round_double :: "real \<Rightarrow> real" where
  "round_double x =
     (if x = 0 then 0
      else of_int (round_half_even (x / 2 powi ulp_exponent x)) * 2 powi ulp_exponent x)"

text \<open>\<open>(true_prob * offered_odds) - 1.0\<close>\<close>

definition calculate_edge_double :: "real \<Rightarrow> real \<Rightarrow> real" where
  "calculate_edge_double true_prob offered_odds =
     round_double (round_double (true_prob * offered_odds) - 1)"

text \<open>\<open>p = (1 + edge) / odds\<close>, the first statement of \<open>kelly_stake\<close> after its guard.\<close>

definition kelly_probability_double :: "real \<Rightarrow> real \<Rightarrow> real" where
  "kelly_probability_double edge odds = round_double (round_double (1 + edge) / odds)"

section \<open>analysis/value_analyzer.py: vig removal and orientation\<close>

text \<open>
  The odds mapping given to \<open>remove_vig_multiplicative\<close> has floats as values, except the one
  that \<open>check_home_away_swap\<close> builds with \<open>dict.get\<close>, where a value can be \<open>None\<close>; so a
  value is a \<open>real option\<close>. \<open>float_odds\<close> reads a mapping of floats as such a mapping.
\<close>

definition float_odds :: "(string \<times> real) list \<Rightarrow> (string \<times> real option) list" where
  "float_odds d = map (\<lambda>(k, v). (k, Some v)) d"

definition outcome_keys :: "(string \<times> 'v) list \<Rightarrow> string list" where
  "outcome_keys odds =
     (let keys = map fst odds;
          keys = (if ''margin'' \<in> set keys then remove1 ''margin'' keys else keys);
          keys = (if ''line'' \<in> set keys then remove1 ''line'' keys else keys)
      in keys)"

text \<open>\<open>1.0 / odds[k]\<close>: \<open>TypeError\<close> on \<open>None\<close>, \<open>ZeroDivisionError\<close> on 0.\<close>

definition implied_prob :: "(string \<times> real option) list \<Rightarrow> string \<Rightarrow> exn + string \<times> real" where
  "implied_prob odds k =
     bind_exn (dict_getitem odds k) (\<lambda>v.
       case v of
         None \<Rightarrow> Inl TypeError
       | Some x \<Rightarrow> bind_exn (float_truediv 1 x) (\<lambda>p. Inr (k, p)))"

definition adjusted_prob ::
  "(string \<times> real) list \<Rightarrow> real \<Rightarrow> real \<Rightarrow> string \<Rightarrow> exn + string \<times> pynum" where
  "adjusted_prob implied_probs total_sum exponent k =
     bind_exn (dict_getitem implied_probs k) (\<lambda>prob.
     bind_exn (float_truediv 1 exponent) (\<lambda>e1.
     bind_exn (float_pow prob e1) (\<lambda>a.
     bind_exn (float_truediv 1 exponent) (\<lambda>e2.
     bind_exn (float_pow total_sum e2) (\<lambda>b.
     bind_exn (py_truediv a b) (\<lambda>v. Inr (k, v)))))))"

text \<open>The body of the \<open>try\<close> block.\<close>

definition remove_vig_body ::
  "(string \<times> real option) list \<Rightarrow> exn + (string \<times> pynum) list option" where
  "remove_vig_body odds =
     (let keys = outcome_keys odds in
      bind_exn (map_exn (implied_prob odds) keys) (\<lambda>implied_probs.
        let total_sum = sum_list (map snd implied_probs);
            n = length keys
        in if n \<le> 1 then Inr (if n = 1 then Some [(keys ! 0, PFloat 1)] else None)
           else
             bind_exn (float_truediv (real n - 1) (real n)) (\<lambda>exponent.
             bind_exn (map_exn (adjusted_prob implied_probs total_sum exponent) keys) (\<lambda>adjusted.
               let adj_total = py_sum (map snd adjusted)
               in bind_exn
                    (map_exn (\<lambda>(k, v). bind_exn (py_truediv v adj_total) (\<lambda>r. Inr (k, r)))
                       adjusted)
                    (\<lambda>result. Inr (Some result))))))"

text \<open>\<open>except (KeyError, ZeroDivisionError, ValueError): return None\<close>; anything else propagates.\<close>

definition remove_vig_multiplicative ::
  "(string \<times> real option) list \<Rightarrow> exn + (string \<times> pynum) list option" where
  "remove_vig_multiplicative odds =
     (case remove_vig_body odds of
        Inl KeyError \<Rightarrow> Inr None
      | Inl ZeroDivisionError \<Rightarrow> Inr None
      | Inl ValueError \<Rightarrow> Inr None
      | Inl e \<Rightarrow> Inl e
      | Inr r \<Rightarrow> Inr r)"

text \<open>
  \<open>sum(abs(probs.get(k, 0) - anchor_probs.get(k, 0)) for k in anchor_probs.keys())\<close>
\<close>

definition divergence :: "(string \<times> pynum) list \<Rightarrow> (string \<times> pynum) list \<Rightarrow> real" where
  "divergence probs anchor_probs =
     sum_list (map (\<lambda>k. py_abs (py_sub (dict_get probs k (PFloat 0))
                                         (dict_get anchor_probs k (PFloat 0))))
                   (map fst anchor_probs))"

definition swapped_odds_of :: "(string \<times> real) list \<Rightarrow> (string \<times> real option) list" where
  "swapped_odds_of soft_odds =
     [(''home'', map_of soft_odds ''away''),
      (''draw'', map_of soft_odds ''draw''),
      (''away'', map_of soft_odds ''home'')]"

definition check_home_away_swap ::
  "(string \<times> real) list \<Rightarrow> (string \<times> real) list \<Rightarrow> exn + (string \<times> pynum) list" where
  "check_home_away_swap soft_odds anchor_odds =
     bind_exn (remove_vig_multiplicative (float_odds soft_odds)) (\<lambda>normal_probs.
     bind_exn (remove_vig_multiplicative (float_odds anchor_odds)) (\<lambda>anchor_probs.
       if falsy normal_probs \<or> falsy anchor_probs then Inr (or_empty normal_probs)
       else
         let normal_div = divergence (or_empty normal_probs) (or_empty anchor_probs)
         in if dict_contains soft_odds ''home'' \<and> dict_contains soft_odds ''away'' then
              bind_exn (remove_vig_multiplicative (swapped_odds_of soft_odds)) (\<lambda>swapped_probs.
                if \<not> falsy swapped_probs then
                  let swapped_div = divergence (or_empty swapped_probs) (or_empty anchor_probs)
                  in if swapped_div + 5 / 100 < normal_div then Inr (or_empty swapped_probs)
                     else Inr (or_empty normal_probs)
                else Inr (or_empty normal_probs))
            else Inr (or_empty normal_probs)))"

section \<open>matching/team_normalizer.py\<close>

text \<open>
  A Python \<open>str\<close> holding a team name is a list of Unicode code points. \<open>U\<close> reads an ASCII
  literal as such a string.
\<close>

type_synonym ustr = "nat list"

definition U :: "string \<Rightarrow> ustr" where
  "U s = map of_char s"

text \<open>
  The standard-library functions that the matcher calls and that are not code of this
  repository are parameters of the model:
  \<^item> \<open>unicode_nfd\<close> is \<open>unicodedata.normalize("NFD", s)\<close>;
  \<^item> \<open>unicode_is_Mn c\<close> is \<open>unicodedata.category(c) == "Mn"\<close>;
  \<^item> \<open>str_lower\<close> is \<open>str.lower\<close>;
  \<^item> \<open>is_whitespace\<close> is the whitespace test of \<open>str.strip\<close> and of \<open>\s\<close> in \<open>re\<close>;
  \<^item> \<open>sequence_ratio a b\<close> is \<open>SequenceMatcher(None, a, b).ratio()\<close>;
  \<^item> \<open>datetime_fromisoformat s\<close> is \<open>datetime.fromisoformat(s).replace(tzinfo=timezone.utc)\<close>,
    as seconds since the epoch (the wall-clock fields read as UTC), or the \<open>ValueError\<close> it
    raises.
\<close>

record pylib =
  unicode_nfd :: "ustr \<Rightarrow> ustr"
  unicode_is_Mn :: "nat \<Rightarrow> bool"
  str_lower :: "ustr \<Rightarrow> ustr"
  is_whitespace :: "nat \<Rightarrow> bool"
  sequence_ratio :: "ustr \<Rightarrow> ustr \<Rightarrow> real"
  datetime_fromisoformat :: "string \<Rightarrow> exn + real"

definition strip_accents :: "pylib \<Rightarrow> ustr \<Rightarrow> ustr" where
  "strip_accents lib text = filter (\<lambda>c. \<not> unicode_is_Mn lib c) (unicode_nfd lib text)"

text \<open>The alias table, as written in the source (all of its keys and values are ASCII).\<close>

definition TEAM_ALIASES :: "(string \<times> string) list" where
  "TEAM_ALIASES =
     [(''ajax'', ''ajax''),
      (''afc ajax'', ''ajax''),
      (''ajax amsterdam'', ''ajax''),
      (''psv'', ''psv''),
      (''psv eindhoven'', ''psv''),
      (''feyenoord'', ''feyenoord''),
      (''feyenoord rotterdam'', ''feyenoord''),
      (''az'', ''az''),
      (''az alkmaar'', ''az''),
      (''fc twente'', ''fc twente''),
      (''twente'', ''fc twente''),
      (''twente enschede'', ''fc twente''),
      (''fc utrecht'', ''fc utrecht''),
      (''utrecht'', ''fc utrecht''),
      (''sc heerenveen'', ''sc heerenveen''),
      (''heerenveen'', ''sc heerenveen''),
      (''nac breda'', ''nac breda''),
      (''nac'', ''nac breda''),
      (''rkc waalwijk'', ''rkc waalwijk''),
      (''rkc'', ''rkc waalwijk''),
      (''pec zwolle'', ''pec zwolle''),
      (''zwolle'', ''pec zwolle''),
      (''go ahead eagles'', ''go ahead eagles''),
      (''ga eagles'', ''go ahead eagles''),
      (''fortuna sittard'', ''fortuna sittard''),
      (''fortuna'', ''fortuna sittard''),
      (''sparta rotterdam'', ''sparta rotterdam''),
      (''sparta'', ''sparta rotterdam''),
      (''heracles almelo'', ''heracles almelo''),
      (''heracles'', ''heracles almelo''),
      (''willem ii'', ''willem ii''),
      (''willem ii tilburg'', ''willem ii''),
      (''nec nijmegen'', ''nec nijmegen''),
      (''nec'', ''nec nijmegen''),
      (''n e c nijmegen'', ''nec nijmegen''),
      (''fc groningen'', ''fc groningen''),
      (''groningen'', ''fc groningen''),
      (''almere city'', ''almere city''),
      (''almere city fc'', ''almere city''),
      (''excelsior'', ''excelsior''),
      (''excelsior rotterdam'', ''excelsior''),
      (''sbv excelsior'', ''excelsior''),
      (''fc eindhoven'', ''fc eindhoven''),
      (''eindhoven'', ''fc eindhoven''),
      (''fc den bosch'', ''fc den bosch''),
      (''den bosch'', ''fc den bosch''),
      (''fc dordrecht'', ''fc dordrecht''),
      (''dordrecht'', ''fc dordrecht''),
      (''fc emmen'', ''fc emmen''),
      (''emmen'', ''fc emmen''),
      (''fc volendam'', ''fc volendam''),
      (''volendam'', ''fc volendam''),
      (''de graafschap'', ''de graafschap''),
      (''graafschap'', ''de graafschap''),
      (''sc cambuur'', ''sc cambuur''),
      (''cambuur'', ''sc cambuur''),
      (''cambuur leeuwarden'', ''sc cambuur''),
      (''mvv maastricht'', ''mvv maastricht''),
      (''mvv'', ''mvv maastricht''),
      (''ado den haag'', ''ado den haag''),
      (''ado'', ''ado den haag''),
      (''helmond sport'', ''helmond sport''),
      (''helmond'', ''helmond sport''),
      (''telstar'', ''telstar''),
      (''sc telstar'', ''telstar''),
      (''top oss'', ''top oss''),
      (''oss'', ''top oss''),
      (''vvv venlo'', ''vvv venlo''),
      (''vvv-venlo'', ''vvv venlo''),
      (''venlo'', ''vvv venlo''),
      (''roda jc'', ''roda jc''),
      (''roda jc kerkrade'', ''roda jc''),
      (''roda'', ''roda jc''),
      (''jong ajax'', ''jong ajax''),
      (''ajax ii'', ''jong ajax''),
      (''jong psv'', ''jong psv''),
      (''psv ii'', ''jong psv''),
      (''jong az'', ''jong az''),
      (''az ii'', ''jong az''),
      (''jong fc utrecht'', ''jong fc utrecht''),
      (''fc utrecht ii'', ''jong fc utrecht''),
      (''manchester united'', ''manchester united''),
      (''man united'', ''manchester united''),
      (''man utd'', ''manchester united''),
      (''manchester city'', ''manchester city''),
      (''man city'', ''manchester city''),
      (''liverpool'', ''liverpool''),
      (''liverpool fc'', ''liverpool''),
      (''chelsea'', ''chelsea''),
      (''chelsea fc'', ''chelsea''),
      (''arsenal'', ''arsenal''),
      (''arsenal fc'', ''arsenal''),
      (''tottenham'', ''tottenham''),
      (''tottenham hotspur'', ''tottenham''),
      (''spurs'', ''tottenham''),
      (''newcastle'', ''newcastle''),
      (''newcastle united'', ''newcastle''),
      (''aston villa'', ''aston villa''),
      (''villa'', ''aston villa''),
      (''brighton'', ''brighton''),
      (''brighton & hove albion'', ''brighton''),
      (''brighton and hove albion'', ''brighton''),
      (''west ham'', ''west ham''),
      (''west ham united'', ''west ham''),
      (''everton'', ''everton''),
      (''everton fc'', ''everton''),
      (''crystal palace'', ''crystal palace''),
      (''palace'', ''crystal palace''),
      (''fulham'', ''fulham''),
      (''fulham fc'', ''fulham''),
      (''brentford'', ''brentford''),
      (''brentford fc'', ''brentford''),
      (''nottingham forest'', ''nottingham forest''),
      (''notts forest'', ''nottingham forest''),
      (''forest'', ''nottingham forest''),
      (''wolverhampton'', ''wolverhampton''),
      (''wolves'', ''wolverhampton''),
      (''wolverhampton wanderers'', ''wolverhampton''),
      (''bournemouth'', ''bournemouth''),
      (''afc bournemouth'', ''bournemouth''),
      (''leicester'', ''leicester''),
      (''leicester city'', ''leicester''),
      (''southampton'', ''southampton''),
      (''southampton fc'', ''southampton''),
      (''leeds'', ''leeds''),
      (''leeds united'', ''leeds''),
      (''ipswich'', ''ipswich''),
      (''ipswich town'', ''ipswich''),
      (''bayern munich'', ''bayern munich''),
      (''bayern'', ''bayern munich''),
      (''fc bayern munchen'', ''bayern munich''),
      (''borussia dortmund'', ''borussia dortmund''),
      (''dortmund'', ''borussia dortmund''),
      (''bvb'', ''borussia dortmund''),
      (''rb leipzig'', ''rb leipzig''),
      (''leipzig'', ''rb leipzig''),
      (''bayer leverkusen'', ''bayer leverkusen''),
      (''leverkusen'', ''bayer leverkusen''),
      (''union berlin'', ''union berlin''),
      (''fc union berlin'', ''union berlin''),
      (''freiburg'', ''freiburg''),
      (''sc freiburg'', ''freiburg''),
      (''eintracht frankfurt'', ''eintracht frankfurt''),
      (''frankfurt'', ''eintracht frankfurt''),
      (''vfl wolfsburg'', ''vfl wolfsburg''),
      (''wolfsburg'', ''vfl wolfsburg''),
      (''borussia monchengladbach'', ''borussia monchengladbach''),
      (''monchengladbach'', ''borussia monchengladbach''),
      (''gladbach'', ''borussia monchengladbach''),
      (''vfb stuttgart'', ''vfb stuttgart''),
      (''stuttgart'', ''vfb stuttgart''),
      (''werder bremen'', ''werder bremen''),
      (''bremen'', ''werder bremen''),
      (''hoffenheim'', ''hoffenheim''),
      (''tsg hoffenheim'', ''hoffenheim''),
      (''fc augsburg'', ''fc augsburg''),
      (''augsburg'', ''fc augsburg''),
      (''mainz'', ''mainz''),
      (''fsv mainz 05'', ''mainz''),
      (''mainz 05'', ''mainz''),
      (''fc koln'', ''fc koln''),
      (''koln'', ''fc koln''),
      (''cologne'', ''fc koln''),
      (''hertha berlin'', ''hertha berlin''),
      (''hertha bsc'', ''hertha berlin''),
      (''real madrid'', ''real madrid''),
      (''madrid'', ''real madrid''),
      (''barcelona'', ''barcelona''),
      (''fc barcelona'', ''barcelona''),
      (''barca'', ''barcelona''),
      (''atletico madrid'', ''atletico madrid''),
      (''atletico'', ''atletico madrid''),
      (''sevilla'', ''sevilla''),
      (''sevilla fc'', ''sevilla''),
      (''real sociedad'', ''real sociedad''),
      (''sociedad'', ''real sociedad''),
      (''real betis'', ''real betis''),
      (''betis'', ''real betis''),
      (''villarreal'', ''villarreal''),
      (''villarreal cf'', ''villarreal''),
      (''athletic bilbao'', ''athletic bilbao''),
      (''athletic'', ''athletic bilbao''),
      (''athletic club'', ''athletic bilbao''),
      (''valencia'', ''valencia''),
      (''valencia cf'', ''valencia''),
      (''getafe'', ''getafe''),
      (''getafe cf'', ''getafe''),
      (''osasuna'', ''osasuna''),
      (''ca osasuna'', ''osasuna''),
      (''rayo vallecano'', ''rayo vallecano''),
      (''rayo'', ''rayo vallecano''),
      (''celta vigo'', ''celta vigo''),
      (''celta'', ''celta vigo''),
      (''mallorca'', ''mallorca''),
      (''rcd mallorca'', ''mallorca''),
      (''girona'', ''girona''),
      (''girona fc'', ''girona''),
      (''las palmas'', ''las palmas''),
      (''ud las palmas'', ''las palmas''),
      (''alaves'', ''alaves''),
      (''deportivo alaves'', ''alaves''),
      (''juventus'', ''juventus''),
      (''juve'', ''juventus''),
      (''inter'', ''inter''),
      (''inter milan'', ''inter''),
      (''internazionale'', ''inter''),
      (''ac milan'', ''ac milan''),
      (''milan'', ''ac milan''),
      (''napoli'', ''napoli''),
      (''ssc napoli'', ''napoli''),
      (''roma'', ''roma''),
      (''as roma'', ''roma''),
      (''lazio'', ''lazio''),
      (''ss lazio'', ''lazio''),
      (''atalanta'', ''atalanta''),
      (''atalanta bc'', ''atalanta''),
      (''fiorentina'', ''fiorentina''),
      (''acf fiorentina'', ''fiorentina''),
      (''torino'', ''torino''),
      (''torino fc'', ''torino''),
      (''bologna'', ''bologna''),
      (''bologna fc'', ''bologna''),
      (''udinese'', ''udinese''),
      (''udinese calcio'', ''udinese''),
      (''sassuolo'', ''sassuolo''),
      (''us sassuolo'', ''sassuolo''),
      (''monza'', ''monza''),
      (''ac monza'', ''monza''),
      (''lecce'', ''lecce''),
      (''us lecce'', ''lecce''),
      (''cagliari'', ''cagliari''),
      (''cagliari calcio'', ''cagliari''),
      (''hellas verona'', ''hellas verona''),
      (''verona'', ''hellas verona''),
      (''salernitana'', ''salernitana''),
      (''us salernitana'', ''salernitana''),
      (''empoli'', ''empoli''),
      (''empoli fc'', ''empoli''),
      (''psg'', ''psg''),
      (''paris saint germain'', ''psg''),
      (''paris sg'', ''psg''),
      (''marseille'', ''marseille''),
      (''om'', ''marseille''),
      (''olympique marseille'', ''marseille''),
      (''lyon'', ''lyon''),
      (''olympique lyon'', ''lyon''),
      (''olympique lyonnais'', ''lyon''),
      (''monaco'', ''monaco''),
      (''as monaco'', ''monaco''),
      (''lille'', ''lille''),
      (''losc lille'', ''lille''),
      (''rennes'', ''rennes''),
      (''stade rennais'', ''rennes''),
      (''nice'', ''nice''),
      (''ogc nice'', ''nice''),
      (''lens'', ''lens''),
      (''rc lens'', ''lens''),
      (''strasbourg'', ''strasbourg''),
      (''rc strasbourg'', ''strasbourg''),
      (''montpellier'', ''montpellier''),
      (''montpellier hsc'', ''montpellier''),
      (''nantes'', ''nantes''),
      (''fc nantes'', ''nantes''),
      (''reims'', ''reims''),
      (''stade reims'', ''reims''),
      (''toulouse'', ''toulouse''),
      (''toulouse fc'', ''toulouse''),
      (''brest'', ''brest''),
      (''stade brestois'', ''brest''),
      (''le havre'', ''le havre''),
      (''le havre ac'', ''le havre''),
      (''lorient'', ''lorient''),
      (''fc lorient'', ''lorient''),
      (''clermont'', ''clermont''),
      (''clermont foot'', ''clermont''),
      (''metz'', ''metz''),
      (''fc metz'', ''metz'')]"

text \<open>\<open>normalized in TEAM_ALIASES\<close> and \<open>TEAM_ALIASES[normalized]\<close>, on code-point strings.\<close>

definition alias_lookup :: "ustr \<Rightarrow> ustr option" where
  "alias_lookup s = map_of (map (\<lambda>(k, v). (U k, U v)) TEAM_ALIASES) s"

text \<open>\<open>s.strip()\<close>\<close>

definition str_strip :: "pylib \<Rightarrow> ustr \<Rightarrow> ustr" where
  "str_strip lib s =
     rev (dropWhile (is_whitespace lib) (rev (dropWhile (is_whitespace lib) s)))"

text \<open>
  \<open>re.sub(r"[.\-\<dots>/']", " ", s)\<close>: full stop 46, hyphen 45, en dash 8211, em dash 8212,
  slash 47 and apostrophe 39 become a space.
\<close>

definition sub_punctuation :: "ustr \<Rightarrow> ustr" where
  "sub_punctuation s = map (\<lambda>c. if c \<in> {46, 45, 8211, 8212, 47, 39} then 32 else c) s"

text \<open>\<open>re.sub(r"\s+", " ", s)\<close>: every maximal run of whitespace becomes one space.\<close>

function sub_whitespace :: "(nat \<Rightarrow> bool) \<Rightarrow> ustr \<Rightarrow> ustr" where
  "sub_whitespace sp [] = []"
| "sub_whitespace sp (c # cs) =
     (if sp c then 32 # sub_whitespace sp (dropWhile sp cs) else c # sub_whitespace sp cs)"
  by pat_completeness auto
termination
  by (relation "measure (\<lambda>(sp, s). length s)") (auto simp: length_dropWhile_le less_Suc_eq_le)

definition PREFIXES :: "ustr list" where
  "PREFIXES = map U [''fc'', ''sc'', ''bv'', ''sv'', ''vv'', ''afc'', ''rk'', ''pk'', ''cf'', ''us'',
     ''ac'', ''as'', ''ssc'', ''rc'', ''og'', ''ca'', ''ud'', ''rcd'']"

definition SUFFIXES :: "ustr list" where
  "SUFFIXES = map U [''fc'', ''united'', ''city'', ''town'', ''rovers'', ''wanderers'', ''athletic'',
     ''hotspur'', ''albion'', ''calcio'', ''amsterdam'', ''rotterdam'', ''nl'']"

text \<open>
  \<open>re.sub(r'^(fc|sc|\<dots>|rcd)\s+', '', s)\<close>: the first alternative that is a prefix of \<open>s\<close> and
  is followed by whitespace is removed together with the whole run of whitespace after it.
\<close>

definition prefix_matches :: "(nat \<Rightarrow> bool) \<Rightarrow> ustr \<Rightarrow> ustr \<Rightarrow> bool" where
  "prefix_matches sp s p =
     (take (length p) s = p \<and> (case drop (length p) s of [] \<Rightarrow> False | c # _ \<Rightarrow> sp c))"

definition sub_prefix :: "(nat \<Rightarrow> bool) \<Rightarrow> ustr \<Rightarrow> ustr" where
  "sub_prefix sp s =
     (case find (prefix_matches sp s) PREFIXES of
        None \<Rightarrow> s
      | Some p \<Rightarrow> dropWhile sp (drop (length p) s))"

text \<open>
  \<open>re.sub(r'\s+(fc|united|\<dots>|nl)$', '', s)\<close>: a run of whitespace followed by one of the
  alternatives is removed where the alternative ends the string, or ends just before a
  newline (code point 10) that ends the string, which is where \<open>$\<close> matches.
\<close>

definition suffix_matches :: "(nat \<Rightarrow> bool) \<Rightarrow> ustr \<Rightarrow> ustr \<Rightarrow> bool" where
  "suffix_matches sp s p =
     (length p < length s \<and> drop (length s - length p) s = p \<and>
      sp (s ! (length s - length p - 1)))"

definition cut_suffix :: "(nat \<Rightarrow> bool) \<Rightarrow> ustr \<Rightarrow> ustr \<Rightarrow> ustr" where
  "cut_suffix sp s p = rev (dropWhile sp (rev (take (length s - length p) s)))"

definition sub_suffix :: "(nat \<Rightarrow> bool) \<Rightarrow> ustr \<Rightarrow> ustr" where
  "sub_suffix sp s =
     (case find (suffix_matches sp s) SUFFIXES of
        Some p \<Rightarrow> cut_suffix sp s p
      | None \<Rightarrow>
          if s \<noteq> [] \<and> last s = 10 then
            (case find (suffix_matches sp (butlast s)) SUFFIXES of
               Some p \<Rightarrow> cut_suffix sp (butlast s) p @ [10]
             | None \<Rightarrow> s)
          else s)"

text \<open>The block of \<open>normalize_team_name\<close> under the comment "Basic normalization".\<close>

definition basic_normalization :: "pylib \<Rightarrow> ustr \<Rightarrow> ustr" where
  "basic_normalization lib name =
     (let normalized = strip_accents lib (str_strip lib (str_lower lib name));
          normalized = sub_punctuation normalized;
          normalized = str_strip lib (sub_whitespace (is_whitespace lib) normalized)
      in normalized)"

definition normalize_team_name :: "pylib \<Rightarrow> ustr \<Rightarrow> ustr" where
  "normalize_team_name lib name =
     (if name = [] then []
      else
        let normalized = basic_normalization lib name in
        case alias_lookup normalized of
          Some canonical \<Rightarrow> canonical
        | None \<Rightarrow>
            let without_prefix = sub_prefix (is_whitespace lib) normalized in
            case alias_lookup without_prefix of
              Some canonical \<Rightarrow> canonical
            | None \<Rightarrow>
                let without_suffix = sub_suffix (is_whitespace lib) normalized in
                case alias_lookup without_suffix of
                  Some canonical \<Rightarrow> canonical
                | None \<Rightarrow> normalized)"

definition team_similarity :: "pylib \<Rightarrow> ustr \<Rightarrow> ustr \<Rightarrow> real" where
  "team_similarity lib name1 name2 = sequence_ratio lib name1 name2"

section \<open>core/models.py\<close>

record UnifiedEvent =
  provider :: string
  provider_event_id :: string
  league :: string
  country :: string
  kickoff_utc :: string
  home :: ustr
  away :: ustr
  markets :: "(string \<times> (string \<times> real) list) list"
  scraped_at :: string
  is_live :: bool

record ValueBet =
  vb_league :: string
  vb_kickoff :: string
  vb_home :: ustr
  vb_away :: ustr
  vb_bookmaker :: string
  vb_market :: string
  vb_outcome :: string
  vb_soft_odds :: real
  vb_anchor_odds :: real
  vb_soft_prob :: pynum
  vb_anchor_prob :: real
  vb_edge_percentage :: real
  vb_recommended_stake :: real
  vb_expected_value :: real

section \<open>utils/datetime_utils.py\<close>

definition parse_datetime :: "pylib \<Rightarrow> string \<Rightarrow> exn + real" where
  "parse_datetime lib dt_str =
     datetime_fromisoformat lib
       (if dt_str \<noteq> [] \<and> last dt_str = CHR ''Z'' then butlast dt_str else dt_str)"

definition within_time_window :: "real \<Rightarrow> real \<Rightarrow> int \<Rightarrow> bool" where
  "within_time_window dt1 dt2 minutes = (\<bar>dt1 - dt2\<bar> \<le> real_of_int (minutes * 60))"

section \<open>matching/event_matcher.py\<close>

text \<open>A candidate is the tuple \<open>(idx, right_event, score, exact_match, avg_similarity)\<close>.\<close>

type_synonym candidate = "nat \<times> UnifiedEvent \<times> real \<times> bool \<times> real"

definition cand_idx :: "candidate \<Rightarrow> nat" where
  "cand_idx c = fst c"

definition cand_event :: "candidate \<Rightarrow> UnifiedEvent" where
  "cand_event c = fst (snd c)"

definition cand_score :: "candidate \<Rightarrow> real" where
  "cand_score c = fst (snd (snd c))"

definition cand_exact :: "candidate \<Rightarrow> bool" where
  "cand_exact c = fst (snd (snd (snd c)))"

text \<open>
  The body of the inner loop for one \<open>(idx, right_event)\<close> of \<open>enumerate(right)\<close>: the
  candidates it appends (none or one), or the exception of \<open>parse_datetime\<close>.
\<close>

definition try_candidate ::
  "pylib \<Rightarrow> UnifiedEvent \<Rightarrow> real \<Rightarrow> ustr \<Rightarrow> ustr \<Rightarrow> int \<Rightarrow> real \<Rightarrow> nat set
     \<Rightarrow> nat \<times> UnifiedEvent \<Rightarrow> exn + candidate list" where
  "try_candidate lib left_event left_kickoff left_home left_away time_tolerance_minutes
       min_similarity used_indices ir =
     (let idx = fst ir; right_event = snd ir in
      if idx \<in> used_indices \<or> league right_event \<noteq> league left_event then Inr []
      else
        let right_home = normalize_team_name lib (home right_event);
            right_away = normalize_team_name lib (away right_event);
            exact_match = (left_home = right_home \<and> left_away = right_away);
            home_sim = team_similarity lib left_home right_home;
            away_sim = team_similarity lib left_away right_away;
            avg_similarity = (home_sim + away_sim) / 2
        in if exact_match \<or> avg_similarity \<ge> min_similarity then
             bind_exn (parse_datetime lib (kickoff_utc right_event)) (\<lambda>right_kickoff.
               if within_time_window left_kickoff right_kickoff time_tolerance_minutes then
                 let time_diff = \<bar>right_kickoff - left_kickoff\<bar>;
                     score = (if exact_match then time_diff else time_diff + 1000)
                 in Inr [(idx, right_event, score, exact_match, avg_similarity)]
               else Inr [])
           else Inr [])"

text \<open>\<open>min(candidates, key=lambda x: x[2])\<close>: the first candidate of least score.\<close>

fun min_by_score :: "candidate \<Rightarrow> candidate list \<Rightarrow> candidate" where
  "min_by_score best [] = best"
| "min_by_score best (c # cs) =
     min_by_score (if cand_score c < cand_score best then c else best) cs"

text \<open>The candidate list built for one left event.\<close>

definition candidates_of ::
  "pylib \<Rightarrow> UnifiedEvent \<Rightarrow> real \<Rightarrow> UnifiedEvent list \<Rightarrow> int \<Rightarrow> real \<Rightarrow> nat set
     \<Rightarrow> exn + candidate list" where
  "candidates_of lib left_event left_kickoff right time_tolerance_minutes min_similarity
       used_indices =
     (let left_home = normalize_team_name lib (home left_event);
          left_away = normalize_team_name lib (away left_event)
      in bind_exn
           (map_exn (try_candidate lib left_event left_kickoff left_home left_away
                       time_tolerance_minutes min_similarity used_indices)
              (zip [0..<length right] right))
           (\<lambda>cs. Inr (concat cs)))"

text \<open>
  The body of the \<open>try\<close> block for one left event: the index and event of the best
  candidate, \<open>None\<close> without candidates, or the exception that the handler will catch.
\<close>

definition match_left ::
  "pylib \<Rightarrow> UnifiedEvent \<Rightarrow> UnifiedEvent list \<Rightarrow> int \<Rightarrow> real \<Rightarrow> nat set
     \<Rightarrow> exn + (nat \<times> UnifiedEvent) option" where
  "match_left lib left_event right time_tolerance_minutes min_similarity used_indices =
     bind_exn (parse_datetime lib (kickoff_utc left_event)) (\<lambda>left_kickoff.
     bind_exn (candidates_of lib left_event left_kickoff right time_tolerance_minutes
                 min_similarity used_indices) (\<lambda>candidates.
       case candidates of
         [] \<Rightarrow> Inr None
       | c # cs \<Rightarrow>
           let best = min_by_score c cs
           in Inr (Some (cand_idx best, cand_event best))))"

text \<open>
  The outer loop, with \<open>matches\<close> and \<open>used_indices\<close> as state; \<open>except Exception\<close> skips the
  left event.
\<close>

fun match_loop ::
  "pylib \<Rightarrow> UnifiedEvent list \<Rightarrow> int \<Rightarrow> real \<Rightarrow> UnifiedEvent list
     \<Rightarrow> (UnifiedEvent \<times> UnifiedEvent) list \<Rightarrow> nat set
     \<Rightarrow> (UnifiedEvent \<times> UnifiedEvent) list" where
  "match_loop lib right tol min_similarity [] matches used_indices = matches"
| "match_loop lib right tol min_similarity (left_event # rest) matches used_indices =
     (case match_left lib left_event right tol min_similarity used_indices of
        Inl e \<Rightarrow> match_loop lib right tol min_similarity rest matches used_indices
      | Inr None \<Rightarrow> match_loop lib right tol min_similarity rest matches used_indices
      | Inr (Some (best_idx, best_event)) \<Rightarrow>
          match_loop lib right tol min_similarity rest
            (matches @ [(left_event, best_event)]) (insert best_idx used_indices))"

definition match_events ::
  "pylib \<Rightarrow> UnifiedEvent list \<Rightarrow> UnifiedEvent list \<Rightarrow> int \<Rightarrow> real
     \<Rightarrow> (UnifiedEvent \<times> UnifiedEvent) list" where
  "match_events lib left right time_tolerance_minutes min_similarity =
     match_loop lib right time_tolerance_minutes min_similarity left [] {}"

text \<open>
  What a matched pair has to satisfy: the same league key, and kick-off times that both
  parse and differ by at most the tolerance.
\<close>

definition matched_pair_invariant :: "pylib \<Rightarrow> int \<Rightarrow> UnifiedEvent \<Rightarrow> UnifiedEvent \<Rightarrow> bool" where
  "matched_pair_invariant lib time_tolerance_minutes l r =
     (league l = league r \<and>
      (case (parse_datetime lib (kickoff_utc l), parse_datetime lib (kickoff_utc r)) of
         (Inr t1, Inr t2) \<Rightarrow> within_time_window t1 t2 time_tolerance_minutes
       | _ \<Rightarrow> False))"

section \<open>analysis/value_analyzer.py: the pipeline\<close>

text \<open>
  The innermost loop body, for one outcome of the anchor probabilities. A complex
  \<open>true_prob\<close> makes the edge complex, and \<open>edge >= min_edge\<close> then raises \<open>TypeError\<close>.
\<close>

definition outcome_bets ::
  "real \<Rightarrow> real \<Rightarrow> string \<Rightarrow> UnifiedEvent \<Rightarrow> string \<Rightarrow> (string \<times> real) list
     \<Rightarrow> (string \<times> real) list \<Rightarrow> (string \<times> pynum) list \<Rightarrow> (string \<times> pynum) list
     \<Rightarrow> string \<Rightarrow> exn + ValueBet list" where
  "outcome_bets min_edge bankroll book_name soft_event market_type soft_market anchor_market
       soft_probs anchor_probs outcome =
     (if \<not> dict_contains soft_market outcome then Inr []
      else
        bind_exn (dict_getitem anchor_probs outcome) (\<lambda>true_prob.
        bind_exn (dict_getitem soft_market outcome) (\<lambda>soft_odds.
        bind_exn (dict_getitem anchor_market outcome) (\<lambda>anchor_odds.
          case true_prob of
            PComplex z \<Rightarrow> Inl TypeError
          | PFloat p \<Rightarrow>
              let edge = calculate_edge p soft_odds in
              if edge \<ge> min_edge then
                bind_exn (kelly_stake edge soft_odds bankroll KELLY_FRACTION) (\<lambda>stake.
                  let ev = stake * edge in
                  bind_exn (dict_getitem soft_probs outcome) (\<lambda>soft_prob.
                    Inr [\<lparr> vb_league = league soft_event,
                           vb_kickoff = kickoff_utc soft_event,
                           vb_home = home soft_event,
                           vb_away = away soft_event,
                           vb_bookmaker = book_name,
                           vb_market = market_type,
                           vb_outcome = outcome,
                           vb_soft_odds = soft_odds,
                           vb_anchor_odds = anchor_odds,
                           vb_soft_prob = soft_prob,
                           vb_anchor_prob = p,
                           vb_edge_percentage = edge * 100,
                           vb_recommended_stake = stake,
                           vb_expected_value = ev \<rparr>]))
              else Inr []))))"

text \<open>The loop body for one market type of one matched pair.\<close>

definition market_bets ::
  "real \<Rightarrow> real \<Rightarrow> string \<Rightarrow> UnifiedEvent \<Rightarrow> UnifiedEvent \<Rightarrow> string \<Rightarrow> exn + ValueBet list" where
  "market_bets min_edge bankroll book_name soft_event anchor_event market_type =
     (if \<not> dict_contains (markets soft_event) market_type
         \<or> \<not> dict_contains (markets anchor_event) market_type then Inr []
      else
        bind_exn (dict_getitem (markets soft_event) market_type) (\<lambda>soft_market.
        bind_exn (dict_getitem (markets anchor_event) market_type) (\<lambda>anchor_market.
        bind_exn (if market_type = ''1x2''
                  then bind_exn (check_home_away_swap soft_market anchor_market)
                         (\<lambda>d. Inr (Some d))
                  else remove_vig_multiplicative (float_odds soft_market)) (\<lambda>soft_probs.
        bind_exn (remove_vig_multiplicative (float_odds anchor_market)) (\<lambda>anchor_probs.
          if falsy soft_probs \<or> falsy anchor_probs then Inr []
          else
            bind_exn
              (map_exn (outcome_bets min_edge bankroll book_name soft_event market_type
                          soft_market anchor_market (or_empty soft_probs) (or_empty anchor_probs))
                 (map fst (or_empty anchor_probs)))
              (\<lambda>bets. Inr (concat bets)))))))"

definition pair_bets ::
  "real \<Rightarrow> real \<Rightarrow> string \<Rightarrow> UnifiedEvent \<times> UnifiedEvent \<Rightarrow> exn + ValueBet list" where
  "pair_bets min_edge bankroll book_name pair =
     bind_exn
       (map_exn (market_bets min_edge bankroll book_name (fst pair) (snd pair))
          [''1x2'', ''ou_2_5'', ''btts''])
       (\<lambda>bets. Inr (concat bets))"

definition book_bets ::
  "pylib \<Rightarrow> UnifiedEvent list \<Rightarrow> int \<Rightarrow> real \<Rightarrow> real \<Rightarrow> string \<times> UnifiedEvent list
     \<Rightarrow> exn + ValueBet list" where
  "book_bets lib anchor_events time_tolerance min_edge bankroll book =
     (let book_name = fst book; book_events = snd book;
          matches = match_events lib book_events anchor_events time_tolerance
                      TEAM_SIMILARITY_THRESHOLD
      in bind_exn (map_exn (pair_bets min_edge bankroll book_name) matches)
           (\<lambda>bets. Inr (concat bets)))"

text \<open>The value bets in the order in which the loops append them, before the final sort.\<close>

definition emitted_value_bets ::
  "pylib \<Rightarrow> UnifiedEvent list \<Rightarrow> (string \<times> UnifiedEvent list) list \<Rightarrow> int \<Rightarrow> real \<Rightarrow> real
     \<Rightarrow> exn + ValueBet list" where
  "emitted_value_bets lib anchor_events soft_books time_tolerance min_edge bankroll =
     bind_exn (map_exn (book_bets lib anchor_events time_tolerance min_edge bankroll) soft_books)
       (\<lambda>bets. Inr (concat bets))"

text \<open>
  \<open>list.sort(key=..., reverse=True)\<close>: the list is reversed, sorted stably in ascending
  order of the key, and reversed again.
\<close>

definition list_sort_reverse :: "('a \<Rightarrow> real) \<Rightarrow> 'a list \<Rightarrow> 'a list" where
  "list_sort_reverse key xs = rev (sort_key key (rev xs))"

definition generate_value_bets ::
  "pylib \<Rightarrow> UnifiedEvent list \<Rightarrow> (string \<times> UnifiedEvent list) list \<Rightarrow> int \<Rightarrow> real \<Rightarrow> real
     \<Rightarrow> exn + ValueBet list" where
  "generate_value_bets lib anchor_events soft_books time_tolerance min_edge bankroll =
     bind_exn (emitted_value_bets lib anchor_events soft_books time_tolerance min_edge bankroll)
       (\<lambda>value_bets. Inr (list_sort_reverse vb_edge_percentage value_bets))"

section \<open>Sample data for the examples\<close>

text \<open>
  The standard library on the strings of the examples below, which are ASCII: there NFD is
  the identity, no character is a combining mark, \<open>lower\<close> maps \<open>A\<close>--\<open>Z\<close> to \<open>a\<close>--\<open>z\<close>, and
  the whitespace characters are 9--13, 28--31 and 32. \<open>sequence_ratio\<close> and
  \<open>datetime_fromisoformat\<close> are given at the arguments that occur in the examples:
  \<open>SequenceMatcher(None, "feyenoord", "feyenord").ratio()\<close> is \<open>2 * 8 / 17\<close> (the matching
  blocks are \<open>feyeno\<close> and \<open>rd\<close>), equal strings have ratio 1, and the three kick-off times
  are 2024-03-02 19:00:00, 19:10:00 and 19:25:00 UTC.
\<close>

definition sample_lib :: pylib where
  "sample_lib = \<lparr>
     unicode_nfd = (\<lambda>s. s),
     unicode_is_Mn = (\<lambda>c. False),
     str_lower = map (\<lambda>c. if 65 \<le> c \<and> c \<le> 90 then c + 32 else c),
     is_whitespace = (\<lambda>c. c \<in> {9, 10, 11, 12, 13, 28, 29, 30, 31, 32}),
     sequence_ratio = (\<lambda>a b.
        if a = b then 1
        else if (a = U ''feyenoord'' \<and> b = U ''feyenord'') \<or> (a = U ''feyenord'' \<and> b = U ''feyenoord'')
        then 16 / 17 else 0),
     datetime_fromisoformat = (\<lambda>s.
        if s = ''2024-03-02T19:00:00'' then Inr 1709406000
        else if s = ''2024-03-02T19:10:00'' then Inr 1709406600
        else if s = ''2024-03-02T19:25:00'' then Inr 1709407500
        else Inl ValueError) \<rparr>"

definition sample_event ::
  "string \<Rightarrow> string \<Rightarrow> string \<Rightarrow> (string \<times> (string \<times> real) list) list \<Rightarrow> UnifiedEvent" where
  "sample_event h a kickoff ms =
     \<lparr> provider = ''sample'', provider_event_id = ''1'', league = ''eredivisie'',
       country = ''NL'', kickoff_utc = kickoff, home = U h, away = U a, markets = ms,
       scraped_at = ''2024-03-01T00:00:00Z'', is_live = False \<rparr>"

text \<open>
  One fixture as offered by the anchor and by three soft books; the last one has a \<open>1x2\<close>
  market with \<open>home\<close> and \<open>away\<close> but no \<open>draw\<close>.
\<close>

definition sample_anchor :: UnifiedEvent where
  "sample_anchor = sample_event ''Feyenoord'' ''PSV'' ''2024-03-02T19:00:00Z''
     [(''1x2'', [(''home'', 2), (''draw'', 7 / 2), (''away'', 4), (''margin'', 357 / 10000)]),
      (''ou_2_5'', [(''over'', 2), (''under'', 2), (''line'', 5 / 2)]),
      (''btts'', [(''yes'', 2), (''no'', 2)])]"

definition sample_jacks :: UnifiedEvent where
  "sample_jacks = sample_event ''Feyenoord'' ''PSV'' ''2024-03-02T19:00:00Z''
     [(''ou_2_5'', [(''over'', 21 / 10), (''under'', 9 / 5), (''line'', 5 / 2)]),
      (''btts'', [(''yes'', 11 / 5), (''no'', 17 / 10)])]"

definition sample_toto :: UnifiedEvent where
  "sample_toto = sample_event ''Feyenoord'' ''PSV'' ''2024-03-02T19:00:00Z''
     [(''btts'', [(''yes'', 11 / 5), (''no'', 17 / 10)])]"

definition sample_partial :: UnifiedEvent where
  "sample_partial = sample_event ''Feyenoord'' ''PSV'' ''2024-03-02T19:00:00Z''
     [(''1x2'', [(''home'', 21 / 10), (''away'', 17 / 5)])]"

text \<open>A value bet on the sample fixture.\<close>

definition sample_bet ::
  "string \<Rightarrow> string \<Rightarrow> string \<Rightarrow> real \<Rightarrow> real \<Rightarrow> real \<Rightarrow> real \<Rightarrow> real \<Rightarrow> ValueBet" where
  "sample_bet book market_type outcome soft_odds soft_prob edge_pct stake ev =
     \<lparr> vb_league = ''eredivisie'', vb_kickoff = ''2024-03-02T19:00:00Z'',
       vb_home = U ''Feyenoord'', vb_away = U ''PSV'', vb_bookmaker = book,
       vb_market = market_type, vb_outcome = outcome, vb_soft_odds = soft_odds,
       vb_anchor_odds = 2, vb_soft_prob = PFloat soft_prob, vb_anchor_prob = 1 / 2,
       vb_edge_percentage = edge_pct, vb_recommended_stake = stake,
       vb_expected_value = ev \<rparr>"

section \<open>Properties of edge and stake\<close>

lemma kelly_stake_guard:
  "edge \<le> 0 \<or> odds \<le> 1 \<Longrightarrow> kelly_stake edge odds bankroll kf = Inr 0"
  by (simp add: kelly_stake_def)

lemma kelly_stake_value:
  assumes "0 < edge" and "1 < odds"
  shows "kelly_stake edge odds bankroll kf =
           Inr (min (max 0 (edge / (odds - 1) * kf) * bankroll) (bankroll * MAX_STAKE_PERCENTAGE))"
proof -
  have nz: "odds \<noteq> 0" "odds - 1 \<noteq> 0" using assms by simp_all
  have "((odds - 1) * ((1 + edge) / odds) - (1 - (1 + edge) / odds)) / (odds - 1)
          = edge / (odds - 1)"
    using nz by (simp add: field_simps)
  then show ?thesis
    using assms nz by (simp add: kelly_stake_def float_truediv_def bind_exn_def Let_def)
qed

text \<open>
  C2 (as amended). \<open>kelly_stake\<close> never raises. For every bankroll that is not negative the
  stake is non-negative and at most \<open>bankroll * MAX_STAKE_PERCENTAGE\<close>, and a zero bankroll
  gives a zero stake. For every bankroll the stake is exactly 0 when \<open>edge \<le> 0\<close> or
  \<open>odds \<le> 1\<close>.
\<close>

theorem kelly_stake_bounds:
  "(\<exists>s. kelly_stake edge odds bankroll kf = Inr s \<and>
        (0 \<le> bankroll \<longrightarrow> 0 \<le> s \<and> s \<le> bankroll * MAX_STAKE_PERCENTAGE) \<and>
        (bankroll = 0 \<longrightarrow> s = 0)) \<and>
   (edge \<le> 0 \<or> odds \<le> 1 \<longrightarrow> kelly_stake edge odds bankroll kf = Inr 0)"
proof (cases "edge \<le> 0 \<or> odds \<le> 1")
  case True
  then have "kelly_stake edge odds bankroll kf = Inr 0"
    by (rule kelly_stake_guard)
  then show ?thesis
    by (simp add: MAX_STAKE_PERCENTAGE_def)
next
  case False
  then have pos: "0 < edge" "1 < odds" by simp_all
  let ?f = "max 0 (edge / (odds - 1) * kf)"
  have f0: "0 \<le> ?f" by simp
  have val: "kelly_stake edge odds bankroll kf =
               Inr (min (?f * bankroll) (bankroll * MAX_STAKE_PERCENTAGE))"
    using pos by (rule kelly_stake_value)
  have nonneg: "0 \<le> min (?f * bankroll) (bankroll * MAX_STAKE_PERCENTAGE)" if "0 \<le> bankroll"
    using that f0 by (simp add: MAX_STAKE_PERCENTAGE_def)
  show ?thesis
    using False val nonneg by simp
qed

theorem kelly_stake_bounds_witness:
  "kelly_stake (1 / 10) 2 1000 KELLY_FRACTION = Inr 25 \<and>
   (0::real) \<le> 25 \<and> (25::real) \<le> 1000 * MAX_STAKE_PERCENTAGE \<and>
   kelly_stake 0 2 1000 KELLY_FRACTION = Inr 0"
proof -
  have v: "kelly_stake (1 / 10) 2 1000 KELLY_FRACTION = Inr 25"
    by (simp add: kelly_stake_value KELLY_FRACTION_def MAX_STAKE_PERCENTAGE_def)
  show ?thesis
    using kelly_stake_bounds [of "1 / 10" 2 1000 KELLY_FRACTION]
      kelly_stake_bounds [of 0 2 1000 KELLY_FRACTION] v
    by simp
qed

text \<open>
  C2 as stated fails for a negative bankroll: with a positive edge the result is the
  negative number \<open>bankroll * MAX_STAKE_PERCENTAGE\<close>, neither non-negative nor zero.
\<close>

theorem kelly_stake_negative_bankroll_counterexample:
  "kelly_stake (1 / 10) 2 (- 1000) KELLY_FRACTION = Inr (- 50) \<and> \<not> (0::real) \<le> - 50"
  by (simp add: kelly_stake_value KELLY_FRACTION_def MAX_STAKE_PERCENTAGE_def)

section \<open>Properties of the round trip in double precision\<close>

lemma round_half_even_error: "\<bar>of_int (round_half_even y) - y\<bar> \<le> 1 / 2"
proof -
  have "of_int \<lfloor>y\<rfloor> \<le> y" "y < of_int \<lfloor>y\<rfloor> + 1" by linarith+
  then show ?thesis
    by (auto simp: round_half_even_def Let_def)
qed

lemma floor_log2_lower:
  assumes "0 < x"
  shows "2 powi \<lfloor>log 2 x\<rfloor> \<le> x"
proof -
  have "2 powr (of_int \<lfloor>log 2 x\<rfloor>) \<le> 2 powr (log 2 x)"
    by (rule powr_mono) simp_all
  also have "\<dots> = x" using assms by simp
  finally show ?thesis by (simp add: powr_real_of_int')
qed

lemma ulp_bound:
  assumes "x \<noteq> 0"
  shows "2 powi ulp_exponent x \<le> max (\<bar>x\<bar> / 2 ^ 52) (1 / 2 ^ 1074)"
proof (cases "\<lfloor>log 2 \<bar>x\<bar>\<rfloor> - 52 \<le> - 1074")
  case True
  then have "ulp_exponent x = - 1074" by (simp add: ulp_exponent_def)
  then have "(2::real) powi ulp_exponent x = 1 / 2 ^ 1074"
    by (simp add: power_int_minus field_simps)
  then show ?thesis by simp
next
  case False
  then have e: "ulp_exponent x = \<lfloor>log 2 \<bar>x\<bar>\<rfloor> - 52" by (simp add: ulp_exponent_def)
  have "(2::real) powi (\<lfloor>log 2 \<bar>x\<bar>\<rfloor> - 52) = 2 powi \<lfloor>log 2 \<bar>x\<bar>\<rfloor> / 2 ^ 52"
    by (simp add: power_int_diff)
  also have "\<dots> \<le> \<bar>x\<bar> / 2 ^ 52"
    using floor_log2_lower [of "\<bar>x\<bar>"] assms by (simp add: divide_right_mono)
  finally show ?thesis using e by simp
qed

lemma round_double_error: "\<bar>round_double x - x\<bar> \<le> \<bar>x\<bar> / 2 ^ 53 + 1 / 2 ^ 1075"
proof (cases "x = 0")
  case True
  then show ?thesis by (simp add: round_double_def)
next
  case False
  define s :: real where "s = 2 powi ulp_exponent x"
  have s0: "0 < s" by (simp add: s_def)
  have "round_double x - x = (of_int (round_half_even (x / s)) - x / s) * s"
    using False s0 by (simp add: round_double_def s_def field_simps)
  then have "\<bar>round_double x - x\<bar> = \<bar>of_int (round_half_even (x / s)) - x / s\<bar> * s"
    using s0 by (simp add: abs_mult)
  also have "\<dots> \<le> 1 / 2 * s"
    using round_half_even_error [of "x / s"] s0 by (intro mult_right_mono) simp_all
  also have "\<dots> \<le> 1 / 2 * max (\<bar>x\<bar> / 2 ^ 52) (1 / 2 ^ 1074)"
    using ulp_bound [OF False] by (simp add: s_def)
  also have "\<dots> \<le> \<bar>x\<bar> / 2 ^ 53 + 1 / 2 ^ 1075"
    by (simp add: max_def)
  finally show ?thesis .
qed

lemma round_double_eval:
  assumes "x \<noteq> 0" and "2 powi (E + 52) \<le> \<bar>x\<bar>" and "\<bar>x\<bar> < 2 powi (E + 53)"
    and "- 1074 \<le> E"
  shows "round_double x = of_int (round_half_even (x / 2 powi E)) * 2 powi E"
proof -
  have pw: "2 powr (real_of_int n) = (2::real) powi n" for n
    by (rule powr_real_of_int') simp_all
  have "2 powr (real_of_int (E + 52)) \<le> \<bar>x\<bar>"
    unfolding pw using assms(2) .
  moreover have "\<bar>x\<bar> < 2 powr (real_of_int (E + 52 + 1))"
    unfolding pw using assms(3) by (simp add: add.assoc)
  ultimately have "\<lfloor>log 2 \<bar>x\<bar>\<rfloor> = E + 52"
    using assms(1) by (subst floor_log_eq_powr_iff) simp_all
  then have "ulp_exponent x = E" using assms(4) by (simp add: ulp_exponent_def)
  then show ?thesis using assms(1) by (simp add: round_double_def)
qed

lemma double_roundtrip_close:
  assumes p: "0 \<le> p" "p \<le> 1" and o: "1 \<le> odds"
  shows "\<bar>kelly_probability_double (calculate_edge_double p odds) odds - p\<bar> \<le> 1 / 2 ^ 49"
proof -
  define u :: real where "u = 1 / 2 ^ 53"
  define h :: real where "h = 1 / 2 ^ 1075"
  have u: "0 \<le> u" "u \<le> 1 / 32" and h: "0 \<le> h" "h \<le> 1 / 32"
    and fin: "11 * u + 4 * h \<le> 1 / 2 ^ 49"
    by (simp_all add: u_def h_def)
  have err: "\<bar>round_double x - x\<bar> \<le> k * u + h" if "\<bar>x\<bar> \<le> k" for x k
  proof -
    have "\<bar>x\<bar> * u \<le> k * u" using that u(1) by (rule mult_right_mono)
    with round_double_error [of x] show ?thesis by (simp add: u_def h_def)
  qed
  define a where "a = round_double (p * odds)"
  define b where "b = round_double (a - 1)"
  define c where "c = round_double (1 + b)"
  define d where "d = round_double (c / odds)"
  have d: "kelly_probability_double (calculate_edge_double p odds) odds = d"
    by (simp add: kelly_probability_double_def calculate_edge_double_def a_def b_def c_def d_def)
  have opos: "0 < odds" using o by linarith
  have ou: "0 \<le> odds * u" "odds * u \<le> odds / 32"
    using opos u by (simp_all add: field_simps)
  have x1: "\<bar>p * odds\<bar> \<le> odds"
    using p o by (simp add: abs_of_nonneg mult_left_le_one_le)
  have a1: "\<bar>a - p * odds\<bar> \<le> odds * u + h"
    unfolding a_def by (rule err [OF x1])
  have a2: "\<bar>a - 1\<bar> \<le> 3 * odds" using a1 x1 ou h o by linarith
  have b1: "\<bar>b - (a - 1)\<bar> \<le> 3 * odds * u + h"
    unfolding b_def by (rule err [OF a2])
  have b2: "\<bar>1 + b\<bar> \<le> 5 * odds" using b1 a2 ou h o by linarith
  have c1: "\<bar>c - (1 + b)\<bar> \<le> 5 * odds * u + h"
    unfolding c_def by (rule err [OF b2])
  have "\<bar>c - p * odds\<bar> \<le> 9 * (odds * u) + 3 * h"
    using a1 b1 c1 by linarith
  also have "\<dots> \<le> (9 * u + 3 * h) * odds"
  proof -
    have "h * 1 \<le> h * odds" using o h(1) by (rule mult_left_mono)
    then have "h \<le> h * odds" by simp
    then show ?thesis by (simp add: algebra_simps)
  qed
  finally have cx: "\<bar>c - p * odds\<bar> \<le> (9 * u + 3 * h) * odds" .
  have "c / odds - p = (c - p * odds) / odds" using opos by (simp add: field_simps)
  then have "\<bar>c / odds - p\<bar> = \<bar>c - p * odds\<bar> / odds" using opos by (simp add: abs_of_pos)
  also have "\<dots> \<le> 9 * u + 3 * h"
    using cx opos by (simp add: pos_divide_le_eq)
  finally have q: "\<bar>c / odds - p\<bar> \<le> 9 * u + 3 * h" .
  have q2: "\<bar>c / odds\<bar> \<le> 2" using q p u h by linarith
  have "\<bar>d - c / odds\<bar> \<le> 2 * u + h"
    unfolding d_def by (rule err [OF q2])
  with q have "\<bar>d - p\<bar> \<le> 11 * u + 4 * h" by linarith
  with fin show ?thesis by (simp add: d)
qed

lemma round_half_even_eval:
  "round_half_even (10808639105689191 / 2) = 5404319552844596"
  "round_half_even (- 6305039478318694) = - 6305039478318694"
  "round_half_even (5404319552844596) = 5404319552844596"
  "round_half_even (21617278211378384 / 3) = 7205759403792795"
  by (simp_all add: round_half_even_def Let_def)

lemma round_double_step_a:
  "round_double (3602879701896397 / 2 ^ 55 * 3) = 5404319552844596 / 2 ^ 54"
proof -
  have "round_double (3602879701896397 / 2 ^ 55 * 3)
      = of_int (round_half_even (3602879701896397 / 2 ^ 55 * 3 / 2 powi (- 54))) * 2 powi (- 54)"
    by (rule round_double_eval) (simp_all add: power_int_minus)
  also have "3602879701896397 / 2 ^ 55 * 3 / 2 powi (- 54) = (10808639105689191 / 2 :: real)"
    by (simp add: power_int_minus)
  finally show ?thesis by (simp add: round_half_even_eval power_int_minus)
qed

lemma round_double_step_b:
  "round_double (5404319552844596 / 2 ^ 54 - 1) = - 6305039478318694 / 2 ^ 53"
proof -
  have "round_double (5404319552844596 / 2 ^ 54 - 1)
      = of_int (round_half_even ((5404319552844596 / 2 ^ 54 - 1) / 2 powi (- 53))) * 2 powi (- 53)"
    by (rule round_double_eval) (simp_all add: power_int_minus)
  also have "(5404319552844596 / 2 ^ 54 - 1) / 2 powi (- 53) = (- 6305039478318694 :: real)"
    by (simp add: power_int_minus)
  finally show ?thesis by (simp add: round_half_even_eval power_int_minus)
qed

lemma round_double_step_c:
  "round_double (1 + - 6305039478318694 / 2 ^ 53) = 5404319552844596 / 2 ^ 54"
proof -
  have "round_double (1 + - 6305039478318694 / 2 ^ 53)
      = of_int (round_half_even ((1 + - 6305039478318694 / 2 ^ 53) / 2 powi (- 54))) * 2 powi (- 54)"
    by (rule round_double_eval) (simp_all add: power_int_minus)
  also have "(1 + - 6305039478318694 / 2 ^ 53) / 2 powi (- 54) = (5404319552844596 :: real)"
    by (simp add: power_int_minus)
  finally show ?thesis by (simp add: round_half_even_eval power_int_minus)
qed

lemma round_double_step_d:
  "round_double (5404319552844596 / 2 ^ 54 / 3) = 7205759403792795 / 2 ^ 56"
proof -
  have "round_double (5404319552844596 / 2 ^ 54 / 3)
      = of_int (round_half_even (5404319552844596 / 2 ^ 54 / 3 / 2 powi (- 56))) * 2 powi (- 56)"
    by (rule round_double_eval) (simp_all add: power_int_minus)
  also have "5404319552844596 / 2 ^ 54 / 3 / 2 powi (- 56) = (21617278211378384 / 3 :: real)"
    by (simp add: power_int_minus)
  finally show ?thesis by (simp add: round_half_even_eval power_int_minus)
qed

text \<open>
  C10 (as amended). Over the reals the round trip is exact: for positive odds
  \<open>(1 + calculate_edge p odds) / odds\<close> is \<open>p\<close> and the division does not raise, and past its
  guard \<open>kelly_stake\<close> computes the stake of the Kelly formula at the probability \<open>p\<close> itself.
  In double precision it is not exact but close: for a probability \<open>p\<close> in \<open>[0, 1]\<close> and odds
  in \<open>[1, 2 ^ 1000]\<close> the probability that \<open>kelly_stake\<close> backs out of the edge computed by
  \<open>calculate_edge\<close> differs from \<open>p\<close> by at most \<open>2 ^ -49\<close>.
\<close>

theorem edge_kelly_roundtrip:
  assumes "0 \<le> p" and "p \<le> 1" and "1 \<le> odds" and "odds \<le> 2 ^ 1000"
  shows "float_truediv (1 + calculate_edge p odds) odds = Inr p \<and>
         (0 < calculate_edge p odds \<and> 1 < odds \<longrightarrow>
            kelly_stake (calculate_edge p odds) odds bankroll kf =
              Inr (min (max 0 (((odds - 1) * p - (1 - p)) / (odds - 1) * kf) * bankroll)
                       (bankroll * MAX_STAKE_PERCENTAGE))) \<and>
         \<bar>kelly_probability_double (calculate_edge_double p odds) odds - p\<bar> \<le> 1 / 2 ^ 49"
proof -
  have pos: "0 < odds" using assms(3) by linarith
  have rt: "float_truediv (1 + calculate_edge p odds) odds = Inr p"
    using pos by (simp add: float_truediv_def calculate_edge_def)
  have "kelly_stake (calculate_edge p odds) odds bankroll kf =
          Inr (min (max 0 (((odds - 1) * p - (1 - p)) / (odds - 1) * kf) * bankroll)
                   (bankroll * MAX_STAKE_PERCENTAGE))"
    if "0 < calculate_edge p odds" "1 < odds"
    using that rt
    by (simp add: kelly_stake_def bind_exn_def float_truediv_def Let_def)
  with rt double_roundtrip_close [OF assms(1,2,3)] show ?thesis by simp
qed

theorem edge_kelly_roundtrip_witness:
  "(0::real) \<le> 1 / 2 \<and> (1 / 2 :: real) \<le> 1 \<and> (1::real) \<le> 3 \<and> (3::real) \<le> 2 ^ 1000 \<and>
   calculate_edge (1 / 2) 3 = 1 / 2 \<and>
   float_truediv (1 + calculate_edge (1 / 2) 3) 3 = Inr (1 / 2) \<and>
   kelly_stake (calculate_edge (1 / 2) 3) 3 1000 KELLY_FRACTION = Inr 50 \<and>
   \<bar>kelly_probability_double (calculate_edge_double (1 / 2) 3) 3 - 1 / 2\<bar> \<le> 1 / 2 ^ 49"
proof -
  have e: "calculate_edge (1 / 2) 3 = 1 / 2"
    by (simp add: calculate_edge_def)
  have h: "(0::real) \<le> 1 / 2" "(1 / 2 :: real) \<le> 1" "(1::real) \<le> 3" "(3::real) \<le> 2 ^ 1000"
    by simp_all
  show ?thesis
    using edge_kelly_roundtrip [OF h, of 1000 KELLY_FRACTION] unfolding e
    by (simp add: KELLY_FRACTION_def MAX_STAKE_PERCENTAGE_def)
qed

text \<open>
  C10 as stated fails in double precision. For \<open>p = 0.1\<close>, the double
  \<open>3602879701896397 / 2 ^ 55\<close>, and odds \<open>3.0\<close>: \<open>p * 3.0\<close> is a tie and rounds up to
  \<open>5404319552844596 / 2 ^ 54\<close>; subtracting and adding 1 are exact; dividing by \<open>3.0\<close> rounds to
  \<open>7205759403792795 / 2 ^ 56\<close>, the double \<open>0.10000000000000002\<close>, one unit in the last place
  above \<open>p\<close>.
\<close>

theorem double_roundtrip_counterexample:
  "kelly_probability_double (calculate_edge_double (3602879701896397 / 2 ^ 55) 3) 3
     = 7205759403792795 / 2 ^ 56
   \<and> kelly_probability_double (calculate_edge_double (3602879701896397 / 2 ^ 55) 3) 3
     \<noteq> 3602879701896397 / 2 ^ 55"
  unfolding kelly_probability_double_def calculate_edge_double_def
    round_double_step_a round_double_step_b round_double_step_c round_double_step_d
  by simp

section \<open>Properties of vig removal\<close>

lemma bind_exn_simps [simp]:
  "bind_exn (Inr x) f = f x" "bind_exn (Inl e) f = Inl e"
  by (simp_all add: bind_exn_def)

lemma map_exn_Inr:
  "(\<And>x. x \<in> set xs \<Longrightarrow> f x = Inr (g x)) \<Longrightarrow> map_exn f xs = Inr (map g xs)"
  by (induction xs) simp_all

lemma map_of_keyed:
  "k \<in> set ks \<Longrightarrow> map_of (map (\<lambda>k. (k, f k)) ks) k = Some (f k)"
  by (induction ks) auto

lemma foldl_py_add_floats:
  "foldl py_add (PFloat a) (map PFloat xs) = PFloat (a + sum_list xs)"
  by (induction xs arbitrary: a) (simp_all add: py_add_def add.assoc)

lemma py_sum_floats: "py_sum (map PFloat xs) = PFloat (sum_list xs)"
  by (simp add: py_sum_def foldl_py_add_floats)

lemma sum_list_pos:
  fixes f :: "'a \<Rightarrow> real"
  assumes "xs \<noteq> []" and "\<And>x. x \<in> set xs \<Longrightarrow> 0 < f x"
  shows "0 < sum_list (map f xs)"
  using assms
proof (induction xs)
  case Nil
  then show ?case by simp
next
  case (Cons a xs)
  show ?case
  proof (cases "xs = []")
    case True
    then show ?thesis using Cons.prems by simp
  next
    case False
    then have "0 < sum_list (map f xs)" using Cons by simp
    moreover have "0 < f a" using Cons.prems by simp
    ultimately show ?thesis by simp
  qed
qed

lemma powr_two: "x \<noteq> 0 \<Longrightarrow> \<bar>x\<bar> powr 2 = x\<^sup>2" for x :: real
  using powr_numeral [of "\<bar>x\<bar>" "Num.Bit0 Num.One"] by simp

lemma float_pow_square:
  assumes "1 / 2 ^ 100 \<le> \<bar>x\<bar>" and "\<bar>x\<bar> \<le> 2 ^ 100"
  shows "float_pow x 2 = Inr (PFloat (x * x))"
proof -
  have x0: "x \<noteq> 0" using assms(1) by auto
  have "\<bar>x\<bar> ^ 2 \<le> (2 ^ 100) ^ 2"
    using assms(2) by (intro power_mono) simp_all
  moreover have "(2 ^ 100) ^ 2 < FLOAT_OVERFLOW" by (simp add: FLOAT_OVERFLOW_def)
  ultimately have hi: "\<not> FLOAT_OVERFLOW \<le> x\<^sup>2" by simp
  have "(1 / 2 ^ 100) ^ 2 \<le> \<bar>x\<bar> ^ 2"
    using assms(1) by (intro power_mono) simp_all
  moreover have "FLOAT_UNDERFLOW < (1 / 2 ^ 100) ^ 2"
    by (simp add: FLOAT_UNDERFLOW_def power_divide)
  ultimately have lo: "\<not> x\<^sup>2 \<le> FLOAT_UNDERFLOW" by simp
  have "float_pow x 2 = Inr (PFloat (x\<^sup>2))"
    using x0 hi lo by (simp add: float_pow_def powr_two Let_def)
  then show ?thesis by (simp add: power2_eq_square)
qed

lemma float_pow_square_overflow:
  assumes "2 ^ 512 \<le> \<bar>x\<bar>"
  shows "float_pow x 2 = Inl OverflowError"
proof -
  have x0: "x \<noteq> 0" using assms by auto
  have "(2 ^ 512) ^ 2 \<le> \<bar>x\<bar> ^ 2"
    using assms by (intro power_mono) simp_all
  moreover have "FLOAT_OVERFLOW \<le> (2 ^ 512) ^ 2" by (simp add: FLOAT_OVERFLOW_def)
  ultimately have "FLOAT_OVERFLOW \<le> x\<^sup>2" by simp
  then show ?thesis
    using x0 by (simp add: float_pow_def powr_two)
qed

lemma float_pow_square_underflow:
  assumes "x \<noteq> 0" and "\<bar>x\<bar> \<le> 1 / 2 ^ 538"
  shows "float_pow x 2 = Inr (PFloat 0)"
proof -
  have "\<bar>x\<bar> ^ 2 \<le> (1 / 2 ^ 538) ^ 2"
    using assms(2) by (intro power_mono) simp_all
  moreover have "(1 / 2 ^ 538) ^ 2 \<le> FLOAT_UNDERFLOW"
    by (simp add: FLOAT_UNDERFLOW_def power_divide)
  ultimately have lo: "x\<^sup>2 \<le> FLOAT_UNDERFLOW" by simp
  moreover have "FLOAT_UNDERFLOW < FLOAT_OVERFLOW"
    by (simp add: FLOAT_UNDERFLOW_def FLOAT_OVERFLOW_def)
  ultimately have hi: "\<not> FLOAT_OVERFLOW \<le> x\<^sup>2" by simp
  show ?thesis
    using assms(1) lo hi by (simp add: float_pow_def powr_two Let_def)
qed

lemma powr_range:
  fixes x :: real
  assumes "lo \<le> x" and "x \<le> hi" and "0 < lo" and "lo \<le> 1" and "1 \<le> hi"
    and "1 \<le> e" and "e \<le> 2"
  shows "lo\<^sup>2 \<le> x powr e" and "x powr e \<le> hi\<^sup>2"
proof -
  have x0: "0 < x" using assms(1,3) by linarith
  have sq: "x powr 2 = x\<^sup>2"
    using powr_numeral [of x "Num.Bit0 Num.One"] x0 by simp
  have lo2: "lo\<^sup>2 \<le> 1" using assms(3,4) by (simp add: power_le_one)
  have hi2: "1 \<le> hi\<^sup>2" using assms(5) by simp
  have "lo\<^sup>2 \<le> x powr e \<and> x powr e \<le> hi\<^sup>2"
  proof (cases "x \<le> 1")
    case True
    have "x powr 2 \<le> x powr e"
      using assms(7) x0 True by (intro powr_mono') simp_all
    moreover have "lo\<^sup>2 \<le> x\<^sup>2"
      using assms(1,3) by (intro power_mono) simp_all
    moreover have "x powr e \<le> 1"
      using x0 True assms(6) by (intro powr_le1) simp_all
    ultimately show ?thesis using sq hi2 by linarith
  next
    case False
    then have x1: "1 \<le> x" by simp
    have "x powr e \<le> x powr 2"
      using assms(7) x1 by (intro powr_mono) simp_all
    moreover have "x\<^sup>2 \<le> hi\<^sup>2"
      using assms(2) x0 by (intro power_mono) simp_all
    moreover have "1 \<le> x powr e"
      using x1 assms(6) by (intro ge_one_powr_ge_zero) simp_all
    ultimately show ?thesis using sq lo2 by linarith
  qed
  then show "lo\<^sup>2 \<le> x powr e" and "x powr e \<le> hi\<^sup>2" by simp_all
qed

lemma float_pow_in_range:
  assumes "0 < x" and "y \<noteq> 0" and "FLOAT_UNDERFLOW < x powr y" and "x powr y < FLOAT_OVERFLOW"
  shows "float_pow x y = Inr (PFloat (x powr y))"
  using assms by (simp add: float_pow_def Let_def)

lemma sum_list_le_length:
  fixes f :: "'a \<Rightarrow> real"
  assumes "\<And>x. x \<in> set xs \<Longrightarrow> f x \<le> 1"
  shows "sum_list (map f xs) \<le> real (length xs)"
  using assms
proof (induction xs)
  case Nil
  then show ?case by simp
next
  case (Cons a xs)
  have "f a \<le> 1" using Cons.prems by simp
  moreover have "sum_list (map f xs) \<le> real (length xs)" using Cons by simp
  ultimately show ?case by simp
qed

lemma sum_list_ge_bound:
  fixes f :: "'a \<Rightarrow> real"
  assumes "xs \<noteq> []" and "0 \<le> lo" and "\<And>x. x \<in> set xs \<Longrightarrow> lo \<le> f x"
  shows "lo \<le> sum_list (map f xs)"
  using assms
proof (induction xs)
  case Nil
  then show ?case by simp
next
  case (Cons a xs)
  have a: "lo \<le> f a" using Cons.prems by simp
  show ?case
  proof (cases "xs = []")
    case True
    then show ?thesis using a by simp
  next
    case False
    then have "lo \<le> sum_list (map f xs)" using Cons by simp
    with a Cons.prems(2) show ?thesis by simp
  qed
qed

text \<open>
  The de-vigged probabilities for two or more outcomes whose odds lie in \<open>[1, 10 ^ 100]\<close>:
  there no power leaves the range of doubles. The number of outcomes is below \<open>2 ^ 63\<close>, as
  the length of every Python list is.
\<close>

lemma remove_vig_positive:
  fixes v :: "string \<Rightarrow> real"
  assumes keys: "outcome_keys odds = keys" and n2: "2 \<le> length keys"
    and nmax: "length keys < 2 ^ 63"
    and vals0: "\<forall>k\<in>set keys. map_of odds k = Some (Some (v k)) \<and> 1 \<le> v k \<and> v k \<le> 10 ^ 100"
  defines "e \<equiv> 1 / ((real (length keys) - 1) / real (length keys))"
  defines "t \<equiv> sum_list (map (\<lambda>k. 1 / v k) keys)"
  defines "w \<equiv> \<lambda>k. (1 / v k) powr e / t powr e"
  shows "remove_vig_multiplicative odds =
           Inr (Some (map (\<lambda>k. (k, PFloat (w k / sum_list (map w keys)))) keys))"
    and "0 < sum_list (map w keys)" and "\<And>k. k \<in> set keys \<Longrightarrow> 0 < w k"
proof -
  have vals: "map_of odds k = Some (Some (v k)) \<and> 1 \<le> v k \<and> v k \<le> 10 ^ 100"
    if "k \<in> set keys" for k
    using vals0 that by blast
  have vpos: "0 < v k" if "k \<in> set keys" for k
    using vals [OF that] by linarith
  have plo: "1 / 10 ^ 100 \<le> 1 / v k" and phi: "1 / v k \<le> 1" if "k \<in> set keys" for k
    using vals [OF that] vpos [OF that] by (simp_all add: field_simps)
  have ne: "keys \<noteq> []" using n2 by (cases keys) simp_all
  have imp: "map_exn (implied_prob odds) keys = Inr (map (\<lambda>k. (k, 1 / v k)) keys)"
  proof (rule map_exn_Inr)
    fix k assume k: "k \<in> set keys"
    from vals [OF k] vpos [OF k] show "implied_prob odds k = Inr (k, 1 / v k)"
      by (simp add: implied_prob_def dict_getitem_def float_truediv_def)
  qed
  have snd_imp: "map snd (map (\<lambda>k. (k, 1 / v k)) keys) = map (\<lambda>k. 1 / v k) keys"
    by simp
  have tlo: "1 / 10 ^ 100 \<le> t"
    unfolding t_def
  proof (rule sum_list_ge_bound [OF ne])
    show "(0::real) \<le> 1 / 10 ^ 100" by simp
    show "\<And>k. k \<in> set keys \<Longrightarrow> 1 / 10 ^ 100 \<le> 1 / v k" by (rule plo)
  qed
  have "t \<le> real (length keys)"
    unfolding t_def by (rule sum_list_le_length) (rule phi)
  moreover have "real (length keys) \<le> 2 ^ 63"
    using nmax by (simp add: of_nat_less_numeral_power_cancel_iff less_imp_le)
  ultimately have thi: "t \<le> 2 ^ 63" by linarith
  have tpos: "0 < t" using tlo by (rule less_le_trans [rotated]) simp
  have n_real: "2 \<le> real (length keys)" using n2 by simp
  have expo: "float_truediv (real (length keys) - 1) (real (length keys))
                = Inr ((real (length keys) - 1) / real (length keys))"
    using ne by (simp add: float_truediv_def)
  have ex_pos: "0 < (real (length keys) - 1) / real (length keys)"
  proof (rule divide_pos_pos)
    show "0 < real (length keys) - 1" using n2 by linarith
    show "0 < real (length keys)" using n2 by linarith
  qed
  have e_eq: "e = real (length keys) / (real (length keys) - 1)"
    by (simp add: e_def)
  have e_lo: "1 \<le> e" and e_hi: "e \<le> 2"
    using n_real unfolding e_eq by (simp_all add: field_simps)
  have e_nz: "e \<noteq> 0" using e_lo by linarith
  have under: "FLOAT_UNDERFLOW < (1 / 10 ^ 100 :: real)\<^sup>2"
    by (simp add: FLOAT_UNDERFLOW_def power_divide)
  have over1: "(1::real)\<^sup>2 < FLOAT_OVERFLOW" and over: "((2::real) ^ 63)\<^sup>2 < FLOAT_OVERFLOW"
    by (simp_all add: FLOAT_OVERFLOW_def)
  have fp: "float_pow (1 / v k) e = Inr (PFloat ((1 / v k) powr e))" if "k \<in> set keys" for k
  proof (rule float_pow_in_range [OF _ e_nz])
    show "0 < 1 / v k" using vpos [OF that] by simp
    have "(1 / 10 ^ 100)\<^sup>2 \<le> (1 / v k) powr e" and "(1 / v k) powr e \<le> 1\<^sup>2"
      using powr_range [OF plo [OF that] phi [OF that] _ _ _ e_lo e_hi] by simp_all
    with under over1
    show "FLOAT_UNDERFLOW < (1 / v k) powr e" and "(1 / v k) powr e < FLOAT_OVERFLOW"
      by linarith+
  qed
  have ft: "float_pow t e = Inr (PFloat (t powr e))"
  proof (rule float_pow_in_range [OF tpos e_nz])
    have "(1 / 10 ^ 100)\<^sup>2 \<le> t powr e" and "t powr e \<le> (2 ^ 63)\<^sup>2"
      using powr_range [OF tlo thi _ _ _ e_lo e_hi] by simp_all
    with under over
    show "FLOAT_UNDERFLOW < t powr e" and "t powr e < FLOAT_OVERFLOW"
      by linarith+
  qed
  have wpos: "0 < w k" if "k \<in> set keys" for k
    unfolding w_def using vpos [OF that] tpos by simp
  have adj1: "adjusted_prob (map (\<lambda>k. (k, 1 / v k)) keys) t
                 ((real (length keys) - 1) / real (length keys)) k = Inr (k, PFloat (w k))"
    if "k \<in> set keys" for k
  proof -
    have tz: "t powr e \<noteq> 0" using tpos by simp
    have fe: "float_truediv 1 ((real (length keys) - 1) / real (length keys)) = Inr e"
    proof -
      have "(real (length keys) - 1) / real (length keys) \<noteq> 0" using ex_pos by linarith
      then show ?thesis unfolding float_truediv_def e_def by (simp only: if_False)
    qed
    have gi: "dict_getitem (map (\<lambda>k. (k, 1 / v k)) keys) k = Inr (1 / v k)"
      using that by (simp add: dict_getitem_def map_of_keyed)
    have dv: "py_truediv (PFloat ((1 / v k) powr e)) (PFloat (t powr e))
                = Inr (PFloat ((1 / v k) powr e / t powr e))"
      using tz by (simp add: py_truediv_def float_truediv_def)
    show ?thesis
      by (simp only: adjusted_prob_def gi fe fp [OF that] ft bind_exn_simps dv w_def)
  qed
  have adj: "map_exn (adjusted_prob (map (\<lambda>k. (k, 1 / v k)) keys) t
                 ((real (length keys) - 1) / real (length keys))) keys
               = Inr (map (\<lambda>k. (k, PFloat (w k))) keys)"
    by (rule map_exn_Inr) (rule adj1)
  have snd_adj: "map snd (map (\<lambda>k. (k, PFloat (w k))) keys) = map PFloat (map w keys)"
    by simp
  show Wpos: "0 < sum_list (map w keys)"
    by (rule sum_list_pos [OF ne]) (rule wpos)
  have fin: "map_exn (\<lambda>(k, x). bind_exn (py_truediv x (PFloat (sum_list (map w keys))))
                 (\<lambda>r. Inr (k, r))) (map (\<lambda>k. (k, PFloat (w k))) keys)
               = Inr (map (\<lambda>(k, x). (k, PFloat (w k / sum_list (map w keys))))
                        (map (\<lambda>k. (k, PFloat (w k))) keys))"
    by (rule map_exn_Inr) (use Wpos in \<open>auto simp: py_truediv_def float_truediv_def\<close>)
  have mm: "map (\<lambda>(k, x). (k, PFloat (w k / sum_list (map w keys))))
                (map (\<lambda>k. (k, PFloat (w k))) keys)
             = map (\<lambda>k. (k, PFloat (w k / sum_list (map w keys)))) keys"
    by simp
  have body: "remove_vig_body odds =
           Inr (Some (map (\<lambda>k. (k, PFloat (w k / sum_list (map w keys)))) keys))"
    using n2 unfolding remove_vig_body_def keys Let_def imp
    by (simp add: snd_imp t_def [symmetric] expo adj snd_adj py_sum_floats fin mm del: map_map)
  show "remove_vig_multiplicative odds =
           Inr (Some (map (\<lambda>k. (k, PFloat (w k / sum_list (map w keys)))) keys))"
    by (simp add: remove_vig_multiplicative_def body)
  show "\<And>k. k \<in> set keys \<Longrightarrow> 0 < w k" by (rule wpos)
qed

lemma remove_vig_positive_ex:
  fixes v :: "string \<Rightarrow> real"
  assumes "outcome_keys odds = keys" and "2 \<le> length keys" and "length keys < 2 ^ 63"
    and "\<forall>k\<in>set keys. map_of odds k = Some (Some (v k)) \<and> 1 \<le> v k \<and> v k \<le> 10 ^ 100"
  shows "\<exists>w. remove_vig_multiplicative odds =
               Inr (Some (map (\<lambda>k. (k, PFloat (w k / sum_list (map w keys)))) keys)) \<and>
             0 < sum_list (map w keys) \<and> (\<forall>k\<in>set keys. 0 < w k)"
proof -
  note r = remove_vig_positive [where v = v, OF assms]
  show ?thesis
    by (rule exI [where x = "\<lambda>k. (1 / v k) powr
            (1 / ((real (length keys) - 1) / real (length keys))) /
          sum_list (map (\<lambda>k. 1 / v k) keys) powr
            (1 / ((real (length keys) - 1) / real (length keys)))"])
      (intro conjI ballI r)
qed

lemma sum_list_divide_const:
  fixes f :: "'a \<Rightarrow> real"
  shows "sum_list (map (\<lambda>x. f x / c) xs) = sum_list (map f xs) / c"
  by (induction xs) (simp_all add: add_divide_distrib)

lemma remove_vig_single:
  assumes "outcome_keys odds = [k]" and "map_of odds k = Some (Some x)" and "x \<noteq> 0"
  shows "remove_vig_multiplicative odds = Inr (Some [(k, PFloat 1)])"
  using assms
  by (simp add: remove_vig_multiplicative_def remove_vig_body_def implied_prob_def
      dict_getitem_def float_truediv_def)

lemma remove_vig_no_outcome:
  assumes "outcome_keys odds = []"
  shows "remove_vig_multiplicative odds = Inr None"
  using assms by (simp add: remove_vig_multiplicative_def remove_vig_body_def)

lemma map_exn_Inl:
  "map_exn f xs = Inl e \<Longrightarrow> \<exists>x\<in>set xs. f x = Inl e"
  by (induction xs) (auto simp: bind_exn_def split: sum.splits)

lemma map_exn_Inr_all:
  "map_exn f xs = Inr ys \<Longrightarrow> \<forall>x\<in>set xs. \<exists>y. f x = Inr y"
  by (induction xs arbitrary: ys) (auto simp: bind_exn_def split: sum.splits)

lemma remove_vig_zero_odds:
  assumes num: "\<And>k. k \<in> set (outcome_keys odds) \<Longrightarrow> \<exists>x. map_of odds k = Some (Some x)"
    and zero: "k0 \<in> set (outcome_keys odds)" "map_of odds k0 = Some (Some 0)"
  shows "remove_vig_multiplicative odds = Inr None"
proof -
  have k0: "implied_prob odds k0 = Inl ZeroDivisionError"
    using zero by (simp add: implied_prob_def dict_getitem_def float_truediv_def)
  have each: "implied_prob odds k = Inl e \<Longrightarrow> e = ZeroDivisionError"
    if "k \<in> set (outcome_keys odds)" for k e
    using num [OF that]
    by (auto simp: implied_prob_def dict_getitem_def float_truediv_def split: if_splits)
  obtain e where e: "map_exn (implied_prob odds) (outcome_keys odds) = Inl e"
  proof (cases "map_exn (implied_prob odds) (outcome_keys odds)")
    case (Inl a)
    then show ?thesis using that by blast
  next
    case (Inr ys)
    from map_exn_Inr_all [OF this] zero(1) k0 show ?thesis by auto
  qed
  from map_exn_Inl [OF e] each have "e = ZeroDivisionError" by blast
  with e show ?thesis
    by (simp add: remove_vig_multiplicative_def remove_vig_body_def)
qed

lemmas devig_eval =
  remove_vig_multiplicative_def remove_vig_body_def outcome_keys_def implied_prob_def
  adjusted_prob_def dict_getitem_def float_truediv_def float_pow_square py_truediv_def
  py_sum_def py_add_def float_odds_def Let_def

text \<open>
  C1 (as amended). For an odds mapping with at least one outcome left after dropping \<open>margin\<close>
  and \<open>line\<close>, and every outcome's odds above 1 and at most \<open>10 ^ 100\<close>,
  \<open>remove_vig_multiplicative\<close> returns a mapping over exactly the outcome keys, in their
  order, whose values are positive floats that sum to 1 (exactly, the rounding of floats not
  being modelled). The number of outcomes is below \<open>2 ^ 63\<close>, as the length of every Python
  list is.
\<close>

theorem remove_vig_sums_to_one:
  assumes ne: "outcome_keys odds \<noteq> []" and len: "length (outcome_keys odds) < 2 ^ 63"
    and gt1: "\<forall>k\<in>set (outcome_keys odds).
                \<exists>x. map_of odds k = Some (Some x) \<and> 1 < x \<and> x \<le> 10 ^ 100"
  shows "\<exists>probs ps. remove_vig_multiplicative odds = Inr (Some probs) \<and>
           map fst probs = outcome_keys odds \<and>
           map snd probs = map PFloat ps \<and> sum_list ps = 1 \<and> (\<forall>p\<in>set ps. 0 < p)"
proof (cases "length (outcome_keys odds) = 1")
  case True
  then obtain k where k: "outcome_keys odds = [k]"
    by (cases "outcome_keys odds") simp_all
  with gt1 obtain x where x: "map_of odds k = Some (Some x)" "1 < x" by auto
  then have "remove_vig_multiplicative odds = Inr (Some [(k, PFloat 1)])"
    using remove_vig_single [OF k, of x] by simp
  then have "remove_vig_multiplicative odds = Inr (Some [(k, PFloat 1)]) \<and>
      map fst [(k, PFloat 1)] = outcome_keys odds \<and>
      map snd [(k, PFloat 1)] = map PFloat [1] \<and> sum_list [1::real] = 1 \<and>
      (\<forall>p\<in>set [1::real]. 0 < p)"
    using k by simp
  then show ?thesis by blast
next
  case False
  define keys where "keys = outcome_keys odds"
  define v where "v = (\<lambda>k. case map_of odds k of Some (Some x) \<Rightarrow> x | _ \<Rightarrow> 0)"
  have n2: "2 \<le> length keys"
  proof (cases "outcome_keys odds")
    case Nil
    with ne show ?thesis by simp
  next
    case (Cons a list)
    with False have "list \<noteq> []" by auto
    then have "1 \<le> length list" by (cases list) simp_all
    with Cons show ?thesis by (simp add: keys_def)
  qed
  have nmax: "length keys < 2 ^ 63" using len by (simp add: keys_def)
  have vals: "\<forall>k\<in>set keys. map_of odds k = Some (Some (v k)) \<and> 1 \<le> v k \<and> v k \<le> 10 ^ 100"
    using gt1 unfolding keys_def v_def by fastforce
  from remove_vig_positive_ex [OF keys_def [symmetric] n2 nmax vals]
  obtain w where rv: "remove_vig_multiplicative odds =
        Inr (Some (map (\<lambda>k. (k, PFloat (w k / sum_list (map w keys)))) keys))"
      "0 < sum_list (map w keys)" "\<forall>k\<in>set keys. 0 < w k"
    by blast
  let ?W = "sum_list (map w keys)"
  let ?probs = "map (\<lambda>k. (k, PFloat (w k / ?W))) keys"
  have 1: "remove_vig_multiplicative odds = Inr (Some ?probs)" by (rule rv(1))
  have 2: "map fst ?probs = outcome_keys odds" by (simp add: keys_def o_def)
  have 3: "map snd ?probs = map PFloat (map (\<lambda>k. w k / ?W) keys)" by (simp add: o_def)
  have 4: "sum_list (map (\<lambda>k. w k / ?W) keys) = 1"
    using rv(2) by (simp add: sum_list_divide_const)
  have 5: "\<forall>p\<in>set (map (\<lambda>k. w k / ?W) keys). 0 < p"
    using rv(2,3) by simp
  from 1 2 3 4 5 show ?thesis by blast
qed

theorem remove_vig_sums_to_one_witness:
  "\<exists>probs ps.
     remove_vig_multiplicative
       [(''home'', Some 2), (''draw'', Some (7 / 2)), (''away'', Some 4),
        (''margin'', Some (357 / 10000))] = Inr (Some probs) \<and>
     map fst probs = [''home'', ''draw'', ''away''] \<and>
     map snd probs = map PFloat ps \<and> sum_list ps = 1 \<and> (\<forall>p\<in>set ps. 0 < p)"
proof -
  let ?odds = "[(''home'', Some 2), (''draw'', Some (7 / 2)), (''away'', Some 4),
                (''margin'', Some (357 / 10000 :: real))]"
  have k: "outcome_keys ?odds = [''home'', ''draw'', ''away'']"
    by (simp add: outcome_keys_def)
  have ne: "outcome_keys ?odds \<noteq> []"
    by (simp add: k)
  have len: "length (outcome_keys ?odds) < 2 ^ 63"
    by (simp add: k)
  have "\<exists>x. Some (Some (7 / 2 :: real)) = Some (Some x) \<and> 1 < x \<and> x \<le> 10 ^ 100"
    by (rule exI [of _ "7 / 2"]) simp
  then have gt: "\<forall>k\<in>set (outcome_keys ?odds).
                   \<exists>x. map_of ?odds k = Some (Some x) \<and> 1 < x \<and> x \<le> 10 ^ 100"
    unfolding k by simp
  show ?thesis
    using remove_vig_sums_to_one [OF ne len gt] by (simp add: k)
qed

text \<open>
  C1 as stated fails on very long odds. For \<open>{a: 1e200, b: 1e200}\<close> both odds are above 1;
  the exponent is \<open>2.0\<close>, the implied probability \<open>1e-200\<close> and the total \<open>2e-200\<close> both
  underflow to \<open>0.0\<close> when squared, \<open>0.0 / 0.0\<close> raises \<open>ZeroDivisionError\<close>, and the result is
  \<open>None\<close>, not a mapping.
\<close>

theorem remove_vig_underflow_counterexample:
  "outcome_keys [(''a'', Some (10 ^ 200 :: real)), (''b'', Some (10 ^ 200))] = [''a'', ''b''] \<and>
   (1::real) < 10 ^ 200 \<and>
   remove_vig_multiplicative [(''a'', Some (10 ^ 200)), (''b'', Some (10 ^ 200))] = Inr None"
  by (simp add: devig_eval float_pow_square_underflow)

text \<open>
  C4 fails on the code, in both directions. For the positive odds \<open>{a: 1e-200, b: 2.0}\<close> the
  implied probability \<open>1e200\<close> is squared, the power raises \<open>OverflowError\<close>, and the handler,
  which names \<open>KeyError\<close>, \<open>ZeroDivisionError\<close> and \<open>ValueError\<close>, lets it pass to the caller.
  For the negative odds \<open>{home: -2.0, away: 4.0}\<close> the implied probabilities are \<open>-0.5\<close> and
  \<open>0.25\<close>, the exponent is \<open>2.0\<close>, no exception is raised, and the result is
  \<open>{home: 0.8, away: 0.2}\<close>, not \<open>None\<close>.
\<close>

theorem remove_vig_bad_odds_not_rejected:
  "remove_vig_multiplicative [(''a'', Some (1 / 10 ^ 200)), (''b'', Some 2)] = Inl OverflowError \<and>
   remove_vig_multiplicative [(''home'', Some (- 2)), (''away'', Some 4)]
     = Inr (Some [(''home'', PFloat (4 / 5)), (''away'', PFloat (1 / 5))])"
  by (simp add: devig_eval float_pow_square_overflow)

section \<open>Properties of the orientation check\<close>

lemma map_exn_length: "map_exn f xs = Inr ys \<Longrightarrow> length ys = length xs"
  by (induction xs arbitrary: ys) (auto simp: bind_exn_def split: sum.splits)

lemma remove_vig_Some_nonempty:
  assumes "remove_vig_multiplicative odds = Inr (Some ps)"
  shows "ps \<noteq> []"
proof -
  have body: "remove_vig_body odds = Inr (Some ps)"
    using assms by (auto simp: remove_vig_multiplicative_def split: sum.splits exn.splits)
  then show ?thesis
    by (auto simp: remove_vig_body_def Let_def bind_exn_def
        split: sum.splits if_splits dest!: map_exn_length)
qed

lemma falsy_Some: "falsy (Some xs) = (xs = [])"
  by (simp add: falsy_def)

text \<open>
  The decision of \<open>check_home_away_swap\<close> where the soft odds as given, the anchor odds and
  the swapped soft odds all de-vig and the soft odds have both \<open>home\<close> and \<open>away\<close>: the
  swapped probabilities are returned exactly when the swapped divergence plus 0.05 is below
  the normal divergence, each divergence being the sum over the anchor's outcome keys of the
  absolute differences of the de-vigged probabilities (an outcome missing on a side counts
  as 0 there).
\<close>

lemma check_home_away_swap_rule:
  assumes normal: "remove_vig_multiplicative (float_odds soft_odds) = Inr (Some normal_probs)"
    and anchor: "remove_vig_multiplicative (float_odds anchor_odds) = Inr (Some anchor_probs)"
    and home_away: "dict_contains soft_odds ''home''" "dict_contains soft_odds ''away''"
    and swapped: "remove_vig_multiplicative (swapped_odds_of soft_odds) = Inr (Some swapped_probs)"
  shows "check_home_away_swap soft_odds anchor_odds =
           Inr (if divergence swapped_probs anchor_probs + 5 / 100
                     < divergence normal_probs anchor_probs
                then swapped_probs else normal_probs)"
    and "divergence swapped_probs anchor_probs =
           (\<Sum>k\<leftarrow>map fst anchor_probs.
              py_abs (py_sub (dict_get swapped_probs k (PFloat 0))
                             (dict_get anchor_probs k (PFloat 0))))"
    and "divergence normal_probs anchor_probs =
           (\<Sum>k\<leftarrow>map fst anchor_probs.
              py_abs (py_sub (dict_get normal_probs k (PFloat 0))
                             (dict_get anchor_probs k (PFloat 0))))"
proof -
  have "normal_probs \<noteq> []" "anchor_probs \<noteq> []" "swapped_probs \<noteq> []"
    using normal anchor swapped by (auto dest: remove_vig_Some_nonempty)
  then show "check_home_away_swap soft_odds anchor_odds =
           Inr (if divergence swapped_probs anchor_probs + 5 / 100
                     < divergence normal_probs anchor_probs
                then swapped_probs else normal_probs)"
    using home_away
    by (simp add: check_home_away_swap_def normal anchor swapped falsy_Some or_empty_def)
qed (simp_all add: divergence_def)

lemma norm3:
  fixes T :: real
  assumes "T \<noteq> 0"
  shows "(x / T) / (x / T + (y / T + z / T)) = x / (x + (y + z))"
  using assms by (simp add: add_divide_distrib [symmetric])

lemma remove_vig_1x2:
  assumes lo: "1 \<le> h" "1 \<le> d" "1 \<le> a"
    and hi: "h \<le> 10 ^ 100" "d \<le> 10 ^ 100" "a \<le> 10 ^ 100"
  defines "ph \<equiv> (1 / h) powr (3 / 2)" and "pd \<equiv> (1 / d) powr (3 / 2)"
    and "pa \<equiv> (1 / a) powr (3 / 2)"
  shows "remove_vig_multiplicative [(''home'', Some h), (''draw'', Some d), (''away'', Some a)]
         = Inr (Some [(''home'', PFloat (ph / (ph + (pd + pa)))),
                      (''draw'', PFloat (pd / (ph + (pd + pa)))),
                      (''away'', PFloat (pa / (ph + (pd + pa))))])"
proof -
  let ?odds = "[(''home'', Some h), (''draw'', Some d), (''away'', Some a)]"
  let ?keys = "[''home'', ''draw'', ''away'']"
  define v where "v = (\<lambda>k. if k = ''home'' then h else if k = ''draw'' then d else a)"
  define T where "T = (1 / h + (1 / d + 1 / a)) powr (3 / 2)"
  have keys: "outcome_keys ?odds = ?keys" by (simp add: outcome_keys_def)
  have n2: "2 \<le> length ?keys" by simp
  have pos: "0 < h" "0 < d" "0 < a" using lo by linarith+
  have nmax: "length ?keys < 2 ^ 63" by simp
  have vals: "\<forall>k\<in>set ?keys.
                map_of ?odds k = Some (Some (v k)) \<and> 1 \<le> v k \<and> v k \<le> 10 ^ 100"
    using lo hi by (simp add: v_def)
  have e: "1 / ((real (length ?keys) - 1) / real (length ?keys)) = 3 / 2" by simp
  have t: "sum_list (map (\<lambda>k. 1 / v k) ?keys) = 1 / h + (1 / d + 1 / a)"
    by (simp add: v_def)
  have "0 < 1 / h + (1 / d + 1 / a)" using pos by (simp add: add_pos_pos)
  then have T0: "T \<noteq> 0" by (simp add: T_def)
  have vs: "v ''home'' = h" "v ''draw'' = d" "v ''away'' = a" by (simp_all add: v_def)
  note r = remove_vig_positive(1) [OF keys n2 nmax vals, unfolded e t]
  have "remove_vig_multiplicative ?odds
         = Inr (Some [(''home'', PFloat ((ph / T) / (ph / T + (pd / T + pa / T)))),
                      (''draw'', PFloat ((pd / T) / (ph / T + (pd / T + pa / T)))),
                      (''away'', PFloat ((pa / T) / (ph / T + (pd / T + pa / T))))])"
    unfolding r by (simp add: vs ph_def pd_def pa_def T_def)
  moreover have "(pd / T) / (ph / T + (pd / T + pa / T)) = pd / (ph + (pd + pa))"
    using norm3 [OF T0, of pd ph pa] by (simp add: add.commute add.left_commute)
  moreover have "(pa / T) / (ph / T + (pd / T + pa / T)) = pa / (ph + (pd + pa))"
    using norm3 [OF T0, of pa ph pd] by (simp add: add.commute add.left_commute)
  ultimately show ?thesis
    by (simp only: norm3 [OF T0])
qed

lemma divergence_self: "divergence ps ps = 0"
proof -
  have "py_abs (py_sub x x) = 0" for x
    by (cases x) (simp_all add: py_abs_def py_sub_def to_complex_def)
  then show ?thesis by (simp add: divergence_def o_def)
qed

text \<open>
  The example of the specification: anchor \<open>{home: 1.5, draw: 4, away: 6}\<close> against soft
  \<open>{home: 6, draw: 4, away: 1.5}\<close> adopts the swapped probabilities.
\<close>

lemma check_home_away_swap_spec_example:
  "\<exists>normal_probs swapped_probs.
     remove_vig_multiplicative (float_odds [(''home'', 6), (''draw'', 4), (''away'', 3 / 2)])
       = Inr (Some normal_probs) \<and>
     remove_vig_multiplicative (swapped_odds_of [(''home'', 6), (''draw'', 4), (''away'', 3 / 2)])
       = Inr (Some swapped_probs) \<and>
     normal_probs \<noteq> swapped_probs \<and>
     check_home_away_swap [(''home'', 6), (''draw'', 4), (''away'', 3 / 2)]
                          [(''home'', 3 / 2), (''draw'', 4), (''away'', 6)]
       = Inr swapped_probs"
proof -
  let ?soft = "[(''home'', 6), (''draw'', 4), (''away'', 3 / 2 :: real)]"
  let ?anchor = "[(''home'', 3 / 2), (''draw'', 4), (''away'', 6 :: real)]"
  define A :: real where "A = (1 / (3 / 2)) powr (3 / 2)"
  define B :: real where "B = (1 / 4) powr (3 / 2)"
  define C :: real where "C = (1 / 6) powr (3 / 2)"
  define np where "np = [(''home'', PFloat (C / (C + (B + A)))),
                         (''draw'', PFloat (B / (C + (B + A)))),
                         (''away'', PFloat (A / (C + (B + A))))]"
  define ap where "ap = [(''home'', PFloat (A / (A + (B + C)))),
                         (''draw'', PFloat (B / (A + (B + C)))),
                         (''away'', PFloat (C / (A + (B + C))))]"
  have n: "remove_vig_multiplicative (float_odds ?soft) = Inr (Some np)"
    using remove_vig_1x2 [of 6 4 "3 / 2"] by (simp add: float_odds_def np_def A_def B_def C_def)
  have a: "remove_vig_multiplicative (float_odds ?anchor) = Inr (Some ap)"
    using remove_vig_1x2 [of "3 / 2" 4 6] by (simp add: float_odds_def ap_def A_def B_def C_def)
  have s: "remove_vig_multiplicative (swapped_odds_of ?soft) = Inr (Some ap)"
    using remove_vig_1x2 [of "3 / 2" 4 6] by (simp add: swapped_odds_of_def ap_def A_def B_def C_def)
  have A_lo: "4 / 9 \<le> A"
    using powr_mono' [of "3 / 2" 2 "2 / 3 :: real"] by (simp add: A_def power2_eq_square)
  have B_hi: "B \<le> 1 / 4"
    using powr_mono' [of 1 "3 / 2" "1 / 4 :: real"] by (simp add: B_def)
  have C_hi: "C \<le> 1 / 6"
    using powr_mono' [of 1 "3 / 2" "1 / 6 :: real"] by (simp add: C_def)
  have B0: "0 \<le> B" and C0: "0 \<le> C" by (simp_all add: B_def C_def)
  have S: "0 < A + (B + C)" using A_lo B0 C0 by linarith
  have comm: "C + (B + A) = A + (B + C)" by simp
  have AC: "C < A" using A_lo C_hi by linarith
  have div_n: "divergence np ap = 2 * ((A - C) / (A + (B + C)))"
  proof -
    have "C / (A + (B + C)) \<le> A / (A + (B + C))"
      using AC S by (simp add: divide_le_cancel)
    then show ?thesis
      by (simp add: divergence_def np_def ap_def dict_get_def py_sub_def py_abs_def comm
          diff_divide_distrib)
  qed
  have "5 / 100 * (A + (B + C)) < 2 * (A - C)"
    using A_lo B_hi C_hi by argo
  then have "5 / 100 < 2 * ((A - C) / (A + (B + C)))"
    using S by (simp add: pos_less_divide_eq)
  then have cond: "divergence ap ap + 5 / 100 < divergence np ap"
    by (simp add: div_n divergence_self)
  have ne: "np \<noteq> ap"
    using AC S by (simp add: np_def ap_def comm)
  have h: "dict_contains ?soft ''home''" "dict_contains ?soft ''away''"
    by (simp_all add: dict_contains_def)
  have "check_home_away_swap ?soft ?anchor = Inr ap"
    using check_home_away_swap_rule(1) [OF n a h s] cond by simp
  with n s ne show ?thesis by blast
qed


lemma swapped_without_draw_raises:
  assumes "map_of soft_odds ''draw'' = None" and "map_of soft_odds ''away'' = Some a"
    and "a \<noteq> 0"
  shows "remove_vig_multiplicative (swapped_odds_of soft_odds) = Inl TypeError"
  using assms
  by (simp add: remove_vig_multiplicative_def remove_vig_body_def swapped_odds_of_def
      outcome_keys_def implied_prob_def dict_getitem_def float_truediv_def)

lemma check_home_away_swap_raises:
  assumes "remove_vig_multiplicative (float_odds soft_odds) = Inr (Some normal_probs)"
    and "remove_vig_multiplicative (float_odds anchor_odds) = Inr (Some anchor_probs)"
    and "dict_contains soft_odds ''home''" and "dict_contains soft_odds ''away''"
    and "remove_vig_multiplicative (swapped_odds_of soft_odds) = Inl e"
  shows "check_home_away_swap soft_odds anchor_odds = Inl e"
proof -
  have "normal_probs \<noteq> []" "anchor_probs \<noteq> []"
    using assms(1,2) by (auto dest: remove_vig_Some_nonempty)
  then show ?thesis
    using assms by (simp add: check_home_away_swap_def falsy_Some or_empty_def)
qed

lemma devig_sample_anchor_1x2:
  "\<exists>ps. remove_vig_multiplicative
          (float_odds [(''home'', 2), (''draw'', 7 / 2), (''away'', 4), (''margin'', 357 / 10000)])
        = Inr (Some ps)"
proof -
  let ?odds = "float_odds [(''home'', 2), (''draw'', 7 / 2), (''away'', 4),
                           (''margin'', 357 / 10000)]"
  define v :: "string \<Rightarrow> real"
    where "v = (\<lambda>k. if k = ''home'' then 2 else if k = ''draw'' then 7 / 2 else 4)"
  have keys: "outcome_keys ?odds = [''home'', ''draw'', ''away'']"
    by (simp add: outcome_keys_def float_odds_def)
  have n2: "2 \<le> length [''home'', ''draw'', ''away'']" by simp
  have nmax: "length [''home'', ''draw'', ''away''] < 2 ^ 63" by simp
  have vals: "\<forall>k\<in>set [''home'', ''draw'', ''away''].
                map_of ?odds k = Some (Some (v k)) \<and> 1 \<le> v k \<and> v k \<le> 10 ^ 100"
    by (simp add: float_odds_def v_def)
  from remove_vig_positive_ex [OF keys n2 nmax vals] show ?thesis by blast
qed

lemma devig_sample_partial_1x2:
  "remove_vig_multiplicative (float_odds [(''home'', 21 / 10), (''away'', 17 / 5)])
     = Inr (Some [(''home'', PFloat (1156 / 1597)), (''away'', PFloat (441 / 1597))])"
  by (simp add: devig_eval)

lemma sample_partial_swap_raises:
  "check_home_away_swap [(''home'', 21 / 10), (''away'', 17 / 5)]
     [(''home'', 2), (''draw'', 7 / 2), (''away'', 4), (''margin'', 357 / 10000)]
   = Inl TypeError"
proof -
  from devig_sample_anchor_1x2 obtain ps where
    a: "remove_vig_multiplicative
          (float_odds [(''home'', 2), (''draw'', 7 / 2), (''away'', 4), (''margin'', 357 / 10000)])
        = Inr (Some ps)" by blast
  have s: "remove_vig_multiplicative (swapped_odds_of [(''home'', 21 / 10), (''away'', 17 / 5)])
             = Inl TypeError"
    by (rule swapped_without_draw_raises [where a = "17 / 5"]) simp_all
  show ?thesis
    by (rule check_home_away_swap_raises [OF devig_sample_partial_1x2 a _ _ s])
      (simp_all add: dict_contains_def)
qed

text \<open>
  C7 fails on the code where the soft \<open>1x2\<close> market has \<open>home\<close> and \<open>away\<close> but no \<open>draw\<close>.
  The soft odds \<open>{home: 2.1, away: 3.4}\<close> and the anchor odds both de-vig, so the function
  goes on to the swapped orientation; the swapped odds are built with
  \<open>soft_odds.get("draw")\<close>, which is \<open>None\<close>; \<open>1.0 / None\<close> raises \<open>TypeError\<close>, which
  \<open>remove_vig_multiplicative\<close> does not catch: \<open>check_home_away_swap\<close> raises instead of
  keeping the normal orientation.
\<close>

theorem check_home_away_swap_partial_market_raises:
  "dict_contains [(''home'', 21 / 10 :: real), (''away'', 17 / 5)] ''home'' \<and>
   dict_contains [(''home'', 21 / 10 :: real), (''away'', 17 / 5)] ''away'' \<and>
   remove_vig_multiplicative (float_odds [(''home'', 21 / 10), (''away'', 17 / 5)])
     = Inr (Some [(''home'', PFloat (1156 / 1597)), (''away'', PFloat (441 / 1597))]) \<and>
   (\<exists>anchor_probs.
      remove_vig_multiplicative
        (float_odds [(''home'', 2), (''draw'', 7 / 2), (''away'', 4), (''margin'', 357 / 10000)])
      = Inr (Some anchor_probs)) \<and>
   remove_vig_multiplicative (swapped_odds_of [(''home'', 21 / 10), (''away'', 17 / 5)])
     = Inl TypeError \<and>
   check_home_away_swap [(''home'', 21 / 10), (''away'', 17 / 5)]
     [(''home'', 2), (''draw'', 7 / 2), (''away'', 4), (''margin'', 357 / 10000)]
   = Inl TypeError"
proof -
  have "remove_vig_multiplicative (swapped_odds_of [(''home'', 21 / 10), (''away'', 17 / 5)])
          = Inl TypeError"
    by (rule swapped_without_draw_raises [where a = "17 / 5"]) simp_all
  then show ?thesis
    using devig_sample_partial_1x2 devig_sample_anchor_1x2 sample_partial_swap_raises
    by (simp add: dict_contains_def)
qed

section \<open>Properties of team-name normalization\<close>

lemma U_inj: "U s = U t \<longleftrightarrow> s = t"
proof -
  have "inj (of_char :: char \<Rightarrow> nat)"
    by (rule injI) simp
  then show ?thesis
    by (simp add: U_def inj_map_eq_map)
qed

lemma U_Nil_iff: "U s = [] \<longleftrightarrow> s = []"
  by (simp add: U_def)

lemma map_of_U:
  "map_of (map (\<lambda>(k, v). (U k, U v)) xs) (U s) = map_option U (map_of xs s)"
  by (induction xs) (auto simp: U_inj)

lemma alias_lookup_U: "alias_lookup (U s) = map_option U (map_of TEAM_ALIASES s)"
  by (simp add: alias_lookup_def map_of_U)

lemma aliases_nonempty: "list_all (\<lambda>(k, v). k \<noteq> [] \<and> v \<noteq> []) TEAM_ALIASES"
  by code_simp

lemma alias_lookup_Some_nonempty:
  assumes "alias_lookup s = Some v"
  shows "v \<noteq> []"
proof -
  from assms have "(s, v) \<in> set (map (\<lambda>(k, v). (U k, U v)) TEAM_ALIASES)"
    unfolding alias_lookup_def by (rule map_of_SomeD)
  then obtain k w where kw: "(k, w) \<in> set TEAM_ALIASES" "v = U w" by auto
  with aliases_nonempty have "w \<noteq> []" by (auto simp: list_all_iff)
  with kw show ?thesis by (simp add: U_Nil_iff)
qed

lemma alias_lookup_Nil: "alias_lookup [] = None"
proof (cases "alias_lookup []")
  case None
  then show ?thesis .
next
  case (Some v)
  then have "([], v) \<in> set (map (\<lambda>(k, v). (U k, U v)) TEAM_ALIASES)"
    unfolding alias_lookup_def by (rule map_of_SomeD)
  then obtain k w where kw: "(k, w) \<in> set TEAM_ALIASES" "U k = []" by auto
  with aliases_nonempty have "k \<noteq> []" by (auto simp: list_all_iff)
  with kw show ?thesis by (simp add: U_Nil_iff)
qed

lemma sub_prefix_Nil: "sub_prefix sp [] = []"
proof -
  have "\<not> prefix_matches sp [] p" for p by (simp add: prefix_matches_def)
  then have "find (prefix_matches sp []) PREFIXES = None" by (simp add: find_None_iff)
  then show ?thesis by (simp add: sub_prefix_def)
qed

lemma sub_suffix_Nil: "sub_suffix sp [] = []"
proof -
  have "\<not> suffix_matches sp [] p" for p by (simp add: suffix_matches_def)
  then have "find (suffix_matches sp []) SUFFIXES = None" by (simp add: find_None_iff)
  then show ?thesis by (simp add: sub_suffix_def)
qed

lemma normalize_team_name_Nil_iff:
  "normalize_team_name lib name = [] \<longleftrightarrow> name = [] \<or> basic_normalization lib name = []"
proof (cases "name = []")
  case True
  then show ?thesis by (simp add: normalize_team_name_def)
next
  case False
  show ?thesis
  proof (cases "basic_normalization lib name = []")
    case True
    then show ?thesis
      using False
      by (simp add: normalize_team_name_def alias_lookup_Nil sub_prefix_Nil sub_suffix_Nil)
  next
    case nz: False
    have "normalize_team_name lib name \<noteq> []"
      using False nz
      by (auto simp: normalize_team_name_def Let_def
          split: option.splits dest: alias_lookup_Some_nonempty)
    with False nz show ?thesis by simp
  qed
qed

lemma normalize_team_name_unmapped:
  assumes "name \<noteq> []"
    and "alias_lookup (basic_normalization lib name) = None"
    and "alias_lookup (sub_prefix (is_whitespace lib) (basic_normalization lib name)) = None"
    and "alias_lookup (sub_suffix (is_whitespace lib) (basic_normalization lib name)) = None"
  shows "normalize_team_name lib name = basic_normalization lib name"
  using assms by (simp add: normalize_team_name_def)

lemma str_strip_Nil_iff: "str_strip lib s = [] \<longleftrightarrow> (\<forall>c\<in>set s. is_whitespace lib c)"
proof -
  have "dropWhile P (rev (dropWhile P s)) = [] \<longleftrightarrow> dropWhile P s = []" for P :: "nat \<Rightarrow> bool"
  proof (cases "dropWhile P s")
    case Nil
    then show ?thesis by (auto dest: set_dropWhileD)
  next
    case (Cons a as)
    then have "\<not> P a" by (metis hd_dropWhile list.distinct(1) list.sel(1))
    then have "dropWhile P (rev (a # as)) \<noteq> []"
      by (auto simp: dropWhile_eq_Nil_conv)
    with Cons show ?thesis by simp
  qed
  then show ?thesis
    by (simp add: str_strip_def dropWhile_eq_Nil_conv)
qed

lemma sub_whitespace_all_space:
  assumes "sp 32"
  shows "(\<forall>c\<in>set (sub_whitespace sp s). sp c) \<longleftrightarrow> (\<forall>c\<in>set s. sp c)"
  using assms
proof (induction sp s rule: sub_whitespace.induct)
  case (1 sp)
  then show ?case by simp
next
  case (2 sp c cs)
  show ?case
  proof (cases "sp c")
    case True
    have "(\<forall>x\<in>set (dropWhile sp cs). sp x) \<longleftrightarrow> (\<forall>x\<in>set cs. sp x)"
      by (metis (full_types) dropWhile_eq_Nil_conv set_dropWhileD takeWhile_dropWhile_id
          set_append UnE set_takeWhileD)
    with True 2 show ?thesis by simp
  next
    case False
    with 2 show ?thesis by simp
  qed
qed

lemma basic_normalization_Nil_iff:
  assumes "is_whitespace lib 32"
  shows "basic_normalization lib name = [] \<longleftrightarrow>
         (\<forall>c\<in>set (strip_accents lib (str_strip lib (str_lower lib name))).
             is_whitespace lib c \<or> c \<in> {46, 45, 8211, 8212, 47, 39})"
  using assms
  by (auto simp: basic_normalization_def str_strip_Nil_iff sub_whitespace_all_space
      sub_punctuation_def)

text \<open>
  C9 (as amended). \<open>normalize_team_name\<close> is total. With code point 32 a whitespace
  character, it returns the empty string exactly when the input is empty or when every
  character left after lower-casing, trimming and accent stripping is whitespace or one of
  \<open>. - / '\<close>, en dash, em dash; and for a non-empty input whose three alias lookups fail it
  returns the normalized-but-unmapped string.
\<close>

theorem normalize_team_name_result:
  assumes "is_whitespace lib 32"
  shows "(normalize_team_name lib name = [] \<longleftrightarrow>
            name = [] \<or>
            (\<forall>c\<in>set (strip_accents lib (str_strip lib (str_lower lib name))).
                is_whitespace lib c \<or> c \<in> {46, 45, 8211, 8212, 47, 39})) \<and>
         (name \<noteq> [] \<and>
          alias_lookup (basic_normalization lib name) = None \<and>
          alias_lookup (sub_prefix (is_whitespace lib) (basic_normalization lib name)) = None \<and>
          alias_lookup (sub_suffix (is_whitespace lib) (basic_normalization lib name)) = None
          \<longrightarrow> normalize_team_name lib name = basic_normalization lib name)"
  using normalize_team_name_Nil_iff [of lib name] basic_normalization_Nil_iff [OF assms, of name]
    normalize_team_name_unmapped [of name lib]
  by blast

lemma sample_whitespace: "is_whitespace sample_lib 32"
  by (simp add: sample_lib_def)

lemma lookup_feyenord: "alias_lookup (U ''feyenord'') = None"
proof -
  have "map_of TEAM_ALIASES ''feyenord'' = None" by code_simp
  then show ?thesis by (simp add: alias_lookup_U)
qed

lemmas sample_eval =
  basic_normalization_def strip_accents_def str_strip_def sub_punctuation_def sample_lib_def
  U_def sub_prefix_def sub_suffix_def cut_suffix_def PREFIXES_def SUFFIXES_def
  prefix_matches_def suffix_matches_def

lemma basic_feyenord: "basic_normalization sample_lib (U ''Feyenord'') = U ''feyenord''"
  by (simp add: sample_eval)

lemma prefix_feyenord: "sub_prefix (is_whitespace sample_lib) (U ''feyenord'') = U ''feyenord''"
  by (simp add: sample_eval)

lemma suffix_feyenord: "sub_suffix (is_whitespace sample_lib) (U ''feyenord'') = U ''feyenord''"
  by (simp add: sample_eval)

theorem normalize_team_name_result_witness:
  "is_whitespace sample_lib 32 \<and>
   normalize_team_name sample_lib (U ''Feyenord'') = U ''feyenord'' \<and>
   normalize_team_name sample_lib (U ''Feyenord'') \<noteq> []"
proof -
  have "normalize_team_name sample_lib (U ''Feyenord'') = U ''feyenord''"
    using normalize_team_name_result [OF sample_whitespace, of "U ''Feyenord''"]
    by (simp add: basic_feyenord prefix_feyenord suffix_feyenord lookup_feyenord U_Nil_iff)
  then show ?thesis
    by (simp add: sample_whitespace U_Nil_iff)
qed

text \<open>
  C9 as stated fails: the non-empty input \<open>"-"\<close> is normalized to the empty string, which no
  lookup maps, and the empty string is returned.
\<close>

theorem normalize_team_name_hyphen_counterexample:
  "U ''-'' \<noteq> [] \<and> normalize_team_name sample_lib (U ''-'') = []"
proof -
  have "basic_normalization sample_lib (U ''-'') = []"
    by (simp add: sample_eval)
  then show ?thesis
    by (simp add: normalize_team_name_Nil_iff U_Nil_iff)
qed

section \<open>Properties of event matching\<close>

lemma try_candidate_sound:
  assumes "try_candidate lib le lk lh la tol ms used (i, ev) = Inr cs" and "c \<in> set cs"
  shows "cand_idx c = i \<and> cand_event c = ev \<and> i \<notin> used \<and> league ev = league le \<and>
         cand_exact c = (lh = normalize_team_name lib (home ev) \<and>
                         la = normalize_team_name lib (away ev)) \<and>
         (\<exists>rk. parse_datetime lib (kickoff_utc ev) = Inr rk \<and>
               within_time_window lk rk tol \<and>
               cand_score c = (if cand_exact c then \<bar>rk - lk\<bar> else \<bar>rk - lk\<bar> + 1000))"
  using assms
  by (auto simp: try_candidate_def Let_def bind_exn_def cand_idx_def cand_event_def
      cand_exact_def cand_score_def split: if_splits sum.splits)

lemma map_exn_concat_member:
  assumes "map_exn f xs = Inr ys" and "c \<in> set (concat ys)"
  shows "\<exists>x\<in>set xs. \<exists>cs. f x = Inr cs \<and> c \<in> set cs"
  using assms
proof (induction xs arbitrary: ys)
  case Nil
  then show ?case by simp
next
  case (Cons x xs)
  from Cons.prems(1) obtain y ys' where
    y: "f x = Inr y" and ys': "map_exn f xs = Inr ys'" and eq: "ys = y # ys'"
    by (auto simp: bind_exn_def split: sum.splits)
  from Cons.prems(2) eq have "c \<in> set y \<or> c \<in> set (concat ys')" by simp
  then show ?case
  proof
    assume "c \<in> set y"
    with y show ?thesis by auto
  next
    assume "c \<in> set (concat ys')"
    from Cons.IH [OF ys' this] show ?thesis by auto
  qed
qed

lemma candidates_of_sound:
  assumes "candidates_of lib le lk right tol ms used = Inr cands" and "c \<in> set cands"
  shows "cand_idx c < length right \<and> cand_event c = right ! cand_idx c \<and>
         cand_idx c \<notin> used \<and> league (cand_event c) = league le \<and>
         cand_exact c = (normalize_team_name lib (home le) = normalize_team_name lib (home (cand_event c)) \<and>
                         normalize_team_name lib (away le) = normalize_team_name lib (away (cand_event c))) \<and>
         (\<exists>rk. parse_datetime lib (kickoff_utc (cand_event c)) = Inr rk \<and>
               within_time_window lk rk tol \<and>
               cand_score c = (if cand_exact c then \<bar>rk - lk\<bar> else \<bar>rk - lk\<bar> + 1000))"
proof -
  from assms obtain ys where
    ys: "map_exn (try_candidate lib le lk (normalize_team_name lib (home le))
            (normalize_team_name lib (away le)) tol ms used) (zip [0..<length right] right) = Inr ys"
    and c: "c \<in> set (concat ys)"
    by (auto simp: candidates_of_def Let_def bind_exn_def split: sum.splits)
  from map_exn_concat_member [OF ys c] obtain i ev cs where
    mem: "(i, ev) \<in> set (zip [0..<length right] right)"
    and tc: "try_candidate lib le lk (normalize_team_name lib (home le))
            (normalize_team_name lib (away le)) tol ms used (i, ev) = Inr cs" "c \<in> set cs"
    by force
  from mem have i: "i < length right" "ev = right ! i"
    by (auto simp: set_zip)
  from try_candidate_sound [OF tc] i show ?thesis by auto
qed

lemma min_by_score_member: "min_by_score b cs \<in> set (b # cs)"
proof (induction cs arbitrary: b)
  case Nil
  then show ?case by simp
next
  case (Cons a cs)
  from Cons [of "if cand_score a < cand_score b then a else b"]
  show ?case by (simp split: if_splits) blast+
qed

lemma min_by_score_le: "c \<in> set (b # cs) \<Longrightarrow> cand_score (min_by_score b cs) \<le> cand_score c"
proof (induction cs arbitrary: b c)
  case Nil
  then show ?case by simp
next
  case (Cons a cs)
  let ?b' = "if cand_score a < cand_score b then a else b"
  have b': "cand_score ?b' \<le> cand_score a" "cand_score ?b' \<le> cand_score b" by auto
  have "cand_score (min_by_score ?b' cs) \<le> cand_score ?b'"
    using Cons.IH [of ?b' ?b'] by simp
  moreover have "cand_score (min_by_score ?b' cs) \<le> cand_score c" if "c \<in> set cs"
    using Cons.IH [of c ?b'] that by simp
  ultimately show ?case using Cons.prems b' by auto
qed

text \<open>
  Where the tolerance window is shorter than the penalty of 1000 seconds
  (\<open>time_tolerance_minutes * 60 < 1000\<close>, that is at most 16 minutes), the exact candidates
  do come first: among the candidates built for a left event, every exact candidate has a
  strictly lower score than every fuzzy one; two candidates of the same certainty are
  ordered by their distance in kick-off time; and the candidate chosen is exact whenever
  some candidate is.
\<close>

lemma exact_preferred_over_fuzzy:
  assumes tol: "time_tolerance_minutes * 60 < 1000"
    and cands: "candidates_of lib left_event left_kickoff right time_tolerance_minutes
                  min_similarity used_indices = Inr candidates"
  shows "(\<forall>c1\<in>set candidates. \<forall>c2\<in>set candidates.
            cand_exact c1 \<and> \<not> cand_exact c2 \<longrightarrow> cand_score c1 < cand_score c2) \<and>
         (\<forall>c1\<in>set candidates. \<forall>c2\<in>set candidates. cand_exact c1 = cand_exact c2 \<longrightarrow>
            (\<exists>k1 k2. parse_datetime lib (kickoff_utc (cand_event c1)) = Inr k1 \<and>
                     parse_datetime lib (kickoff_utc (cand_event c2)) = Inr k2 \<and>
                     (cand_score c1 < cand_score c2 \<longleftrightarrow>
                        \<bar>k1 - left_kickoff\<bar> < \<bar>k2 - left_kickoff\<bar>))) \<and>
         (\<forall>c cs. candidates = c # cs \<and> (\<exists>x\<in>set candidates. cand_exact x) \<longrightarrow>
            cand_exact (min_by_score c cs))"
proof -
  have bound: "real_of_int (time_tolerance_minutes * 60) < 1000"
    using tol by linarith
  have info: "\<exists>rk. parse_datetime lib (kickoff_utc (cand_event c)) = Inr rk \<and>
               \<bar>rk - left_kickoff\<bar> < 1000 \<and>
               cand_score c = (if cand_exact c then \<bar>rk - left_kickoff\<bar>
                               else \<bar>rk - left_kickoff\<bar> + 1000)"
    if "c \<in> set candidates" for c
  proof -
    from candidates_of_sound [OF cands that] obtain rk where
      rk: "parse_datetime lib (kickoff_utc (cand_event c)) = Inr rk"
        "within_time_window left_kickoff rk time_tolerance_minutes"
        "cand_score c = (if cand_exact c then \<bar>rk - left_kickoff\<bar>
                               else \<bar>rk - left_kickoff\<bar> + 1000)"
      by blast
    from rk(2) bound have "\<bar>rk - left_kickoff\<bar> < 1000"
      by (simp add: within_time_window_def abs_minus_commute)
    with rk show ?thesis by blast
  qed
  have first: "cand_score c1 < cand_score c2"
    if "c1 \<in> set candidates" "c2 \<in> set candidates" "cand_exact c1" "\<not> cand_exact c2" for c1 c2
  proof -
    from info [OF that(1)] that(3) have "cand_score c1 < 1000" by auto
    moreover from info [OF that(2)] that(4) have "1000 \<le> cand_score c2" by auto
    ultimately show ?thesis by linarith
  qed
  have second: "\<exists>k1 k2. parse_datetime lib (kickoff_utc (cand_event c1)) = Inr k1 \<and>
                     parse_datetime lib (kickoff_utc (cand_event c2)) = Inr k2 \<and>
                     (cand_score c1 < cand_score c2 \<longleftrightarrow>
                        \<bar>k1 - left_kickoff\<bar> < \<bar>k2 - left_kickoff\<bar>)"
    if "c1 \<in> set candidates" "c2 \<in> set candidates" "cand_exact c1 = cand_exact c2" for c1 c2
  proof -
    from info [OF that(1)] obtain k1 where
      k1: "parse_datetime lib (kickoff_utc (cand_event c1)) = Inr k1"
        "cand_score c1 = (if cand_exact c1 then \<bar>k1 - left_kickoff\<bar>
                               else \<bar>k1 - left_kickoff\<bar> + 1000)" by blast
    from info [OF that(2)] obtain k2 where
      k2: "parse_datetime lib (kickoff_utc (cand_event c2)) = Inr k2"
        "cand_score c2 = (if cand_exact c2 then \<bar>k2 - left_kickoff\<bar>
                               else \<bar>k2 - left_kickoff\<bar> + 1000)" by blast
    have "cand_score c1 < cand_score c2 \<longleftrightarrow> \<bar>k1 - left_kickoff\<bar> < \<bar>k2 - left_kickoff\<bar>"
      using k1(2) k2(2) that(3) by auto
    with k1(1) k2(1) show ?thesis by blast
  qed
  have third: "cand_exact (min_by_score c cs)"
    if "candidates = c # cs" "x \<in> set candidates" "cand_exact x" for c cs x
  proof (rule ccontr)
    assume ne: "\<not> cand_exact (min_by_score c cs)"
    have m: "min_by_score c cs \<in> set candidates"
      using min_by_score_member [of c cs] that(1) by simp
    from first [OF that(2) m that(3) ne] min_by_score_le [of x c cs] that(1,2)
    show False by simp
  qed
  from first second third show ?thesis by blast
qed

lemma match_left_sound:
  assumes "match_left lib le right tol ms used = Inr (Some (j, ev))"
  shows "j < length right \<and> ev = right ! j \<and> j \<notin> used \<and>
         matched_pair_invariant lib tol le (right ! j)"
proof -
  from assms obtain lk cands c cs where
    lk: "parse_datetime lib (kickoff_utc le) = Inr lk"
    and cands: "candidates_of lib le lk right tol ms used = Inr cands"
    and cs: "cands = c # cs"
    and j: "j = cand_idx (min_by_score c cs)" and ev: "ev = cand_event (min_by_score c cs)"
    by (auto simp: match_left_def bind_exn_def Let_def split: sum.splits list.splits)
  have "min_by_score c cs \<in> set cands"
    using min_by_score_member [of c cs] cs by simp
  from candidates_of_sound [OF cands this] lk j ev show ?thesis
    by (auto simp: matched_pair_invariant_def)
qed

lemma match_loop_pairs:
  assumes "matches = map (\<lambda>(i, j). (L ! i, right ! j)) ps"
    and "\<forall>(i, j)\<in>set ps. i < length pre \<and> j < length right \<and> j \<in> used \<and>
           matched_pair_invariant lib tol (L ! i) (right ! j)"
    and "sorted_wrt (<) (map fst ps)" and "distinct (map snd ps)"
    and "L = pre @ rest"
  shows "\<exists>ps'. match_loop lib right tol ms rest matches used
               = map (\<lambda>(i, j). (L ! i, right ! j)) ps' \<and>
             sorted_wrt (<) (map fst ps') \<and> distinct (map snd ps') \<and>
             (\<forall>(i, j)\<in>set ps'. i < length L \<and> j < length right \<and>
                matched_pair_invariant lib tol (L ! i) (right ! j))"
  using assms
proof (induction rest arbitrary: pre matches used ps)
  case Nil
  then show ?case by fastforce
next
  case (Cons le rest)
  have le: "L ! length pre = le" using Cons.prems(5) by simp
  have L': "L = (pre @ [le]) @ rest" using Cons.prems(5) by simp
  have weaker: "\<forall>(i, j)\<in>set ps. i < length (pre @ [le]) \<and> j < length right \<and> j \<in> used' \<and>
           matched_pair_invariant lib tol (L ! i) (right ! j)" if "used \<subseteq> used'" for used'
    using Cons.prems(2) that by fastforce
  show ?case
  proof (cases "match_left lib le right tol ms used")
    case (Inl e)
    from Cons.IH [OF Cons.prems(1) weaker [OF subset_refl] Cons.prems(3,4) L'] Inl
    show ?thesis by simp
  next
    case (Inr r)
    show ?thesis
    proof (cases r)
      case None
      from Cons.IH [OF Cons.prems(1) weaker [OF subset_refl] Cons.prems(3,4) L'] Inr None
      show ?thesis by simp
    next
      case (Some a)
      obtain j ev where a: "a = (j, ev)" by (cases a)
      from match_left_sound [OF Inr [unfolded Some a]]
      have j: "j < length right" "ev = right ! j" "j \<notin> used"
        "matched_pair_invariant lib tol le (right ! j)" by auto
      let ?ps = "ps @ [(length pre, j)]"
      have 1: "matches @ [(le, ev)] = map (\<lambda>(i, j). (L ! i, right ! j)) ?ps"
        using Cons.prems(1) le j(2) by simp
      have 2: "\<forall>(i, k)\<in>set ?ps. i < length (pre @ [le]) \<and> k < length right \<and>
                 k \<in> insert j used \<and> matched_pair_invariant lib tol (L ! i) (right ! k)"
        using Cons.prems(2) j le by fastforce
      have 3: "sorted_wrt (<) (map fst ?ps)"
        using Cons.prems(2,3) by (fastforce simp: sorted_wrt_append)
      have 4: "distinct (map snd ?ps)"
        using Cons.prems(2,4) j(3) by fastforce
      from Cons.IH [OF 1 2 3 4 L'] Inr Some a
      show ?thesis by simp
    qed
  qed
qed

text \<open>
  C6. The pairs returned by \<open>match_events\<close> are the events at some list of index pairs
  \<open>(i, j)\<close> into the left and the right list: the left indices strictly increase (no left
  event is in two pairs), the right indices are distinct (no right event is in two pairs),
  and every pair has the same league key and kick-off times within the tolerance. In the
  witness two left events are within tolerance of the one right event, and only the first
  is paired with it.
\<close>

theorem match_events_one_to_one:
  "\<exists>ps. match_events lib left right time_tolerance_minutes min_similarity
           = map (\<lambda>(i, j). (left ! i, right ! j)) ps \<and>
        sorted_wrt (<) (map fst ps) \<and> distinct (map snd ps) \<and>
        (\<forall>(i, j)\<in>set ps. i < length left \<and> j < length right \<and>
           matched_pair_invariant lib time_tolerance_minutes (left ! i) (right ! j))"
  unfolding match_events_def
  by (rule match_loop_pairs [where ps = "[]" and pre = "[]"]) simp_all

section \<open>The matcher on the sample events\<close>

lemma lookup_feyenoord: "alias_lookup (U ''feyenoord'') = Some (U ''feyenoord'')"
proof -
  have "map_of TEAM_ALIASES ''feyenoord'' = Some ''feyenoord''" by code_simp
  then show ?thesis by (simp add: alias_lookup_U)
qed

lemma lookup_psv: "alias_lookup (U ''psv'') = Some (U ''psv'')"
proof -
  have "map_of TEAM_ALIASES ''psv'' = Some ''psv''" by code_simp
  then show ?thesis by (simp add: alias_lookup_U)
qed

lemma norm_feyenoord: "normalize_team_name sample_lib (U ''Feyenoord'') = U ''feyenoord''"
proof -
  have "basic_normalization sample_lib (U ''Feyenoord'') = U ''feyenoord''"
    by (simp add: sample_eval)
  then show ?thesis
    by (simp add: normalize_team_name_def lookup_feyenoord U_Nil_iff)
qed

lemma norm_psv: "normalize_team_name sample_lib (U ''PSV'') = U ''psv''"
proof -
  have "basic_normalization sample_lib (U ''PSV'') = U ''psv''"
    by (simp add: sample_eval)
  then show ?thesis
    by (simp add: normalize_team_name_def lookup_psv U_Nil_iff)
qed

lemma norm_feyenord: "normalize_team_name sample_lib (U ''Feyenord'') = U ''feyenord''"
  by (simp add: normalize_team_name_def basic_feyenord prefix_feyenord suffix_feyenord
      lookup_feyenord U_Nil_iff)

lemma sample_parse:
  "parse_datetime sample_lib ''2024-03-02T19:00:00Z'' = Inr 1709406000"
  "parse_datetime sample_lib ''2024-03-02T19:10:00Z'' = Inr 1709406600"
  "parse_datetime sample_lib ''2024-03-02T19:25:00Z'' = Inr 1709407500"
  by (simp_all add: parse_datetime_def sample_lib_def)

lemma sample_similarity:
  "team_similarity sample_lib (U ''feyenoord'') (U ''feyenord'') = 16 / 17"
  "team_similarity sample_lib s s = 1"
  by (simp_all add: team_similarity_def sample_lib_def U_inj)

lemma sample_fields:
  "league (sample_event h a k ms) = ''eredivisie''"
  "home (sample_event h a k ms) = U h"
  "away (sample_event h a k ms) = U a"
  "kickoff_utc (sample_event h a k ms) = k"
  "markets (sample_event h a k ms) = ms"
  by (simp_all add: sample_event_def)

lemmas matcher_eval =
  candidates_of_def try_candidate_def sample_fields norm_feyenoord norm_psv norm_feyenord
  sample_parse sample_similarity within_time_window_def TEAM_SIMILARITY_THRESHOLD_def U_inj

lemma sample_candidates_12:
  "candidates_of sample_lib (sample_event ''Feyenoord'' ''PSV'' ''2024-03-02T19:00:00Z'' [])
     1709406000
     [sample_event ''Feyenord'' ''PSV'' ''2024-03-02T19:00:00Z'' [],
      sample_event ''Feyenoord'' ''PSV'' ''2024-03-02T19:10:00Z'' []]
     12 TEAM_SIMILARITY_THRESHOLD {}
   = Inr [(0, sample_event ''Feyenord'' ''PSV'' ''2024-03-02T19:00:00Z'' [], 1000, False, 33 / 34),
          (1, sample_event ''Feyenoord'' ''PSV'' ''2024-03-02T19:10:00Z'' [], 600, True, 1)]"
  by (simp add: matcher_eval upt_rec)

lemma sample_candidates_30:
  "candidates_of sample_lib (sample_event ''Feyenoord'' ''PSV'' ''2024-03-02T19:00:00Z'' [])
     1709406000
     [sample_event ''Feyenord'' ''PSV'' ''2024-03-02T19:00:00Z'' [],
      sample_event ''Feyenoord'' ''PSV'' ''2024-03-02T19:25:00Z'' []]
     30 TEAM_SIMILARITY_THRESHOLD {}
   = Inr [(0, sample_event ''Feyenord'' ''PSV'' ''2024-03-02T19:00:00Z'' [], 1000, False, 33 / 34),
          (1, sample_event ''Feyenoord'' ''PSV'' ''2024-03-02T19:25:00Z'' [], 1500, True, 1)]"
  by (simp add: matcher_eval upt_rec)

lemma sample_candidates_30_exact_first:
  "candidates_of sample_lib (sample_event ''Feyenoord'' ''PSV'' ''2024-03-02T19:00:00Z'' [])
     1709406000
     [sample_event ''Feyenoord'' ''PSV'' ''2024-03-02T19:25:00Z'' [],
      sample_event ''Feyenord'' ''PSV'' ''2024-03-02T19:00:00Z'' []]
     30 TEAM_SIMILARITY_THRESHOLD {}
   = Inr [(0, sample_event ''Feyenoord'' ''PSV'' ''2024-03-02T19:25:00Z'' [], 1500, True, 1),
          (1, sample_event ''Feyenord'' ''PSV'' ''2024-03-02T19:00:00Z'' [], 1000, False, 33 / 34)]"
  by (simp add: matcher_eval upt_rec)

lemma sample_exact_preferred_12:
  "(12::int) * 60 < 1000 \<and>
   candidates_of sample_lib (sample_event ''Feyenoord'' ''PSV'' ''2024-03-02T19:00:00Z'' [])
     1709406000
     [sample_event ''Feyenord'' ''PSV'' ''2024-03-02T19:00:00Z'' [],
      sample_event ''Feyenoord'' ''PSV'' ''2024-03-02T19:10:00Z'' []]
     12 TEAM_SIMILARITY_THRESHOLD {}
   = Inr [(0, sample_event ''Feyenord'' ''PSV'' ''2024-03-02T19:00:00Z'' [], 1000, False, 33 / 34),
          (1, sample_event ''Feyenoord'' ''PSV'' ''2024-03-02T19:10:00Z'' [], 600, True, 1)] \<and>
   cand_score (1, sample_event ''Feyenoord'' ''PSV'' ''2024-03-02T19:10:00Z'' [], 600, True, 1)
     < cand_score (0, sample_event ''Feyenord'' ''PSV'' ''2024-03-02T19:00:00Z'' [], 1000, False,
                   33 / 34) \<and>
   cand_exact
     (min_by_score
        (0, sample_event ''Feyenord'' ''PSV'' ''2024-03-02T19:00:00Z'' [], 1000, False, 33 / 34)
        [(1, sample_event ''Feyenoord'' ''PSV'' ''2024-03-02T19:10:00Z'' [], 600, True, 1)])"
proof -
  have tol: "(12::int) * 60 < 1000" by simp
  note inst = exact_preferred_over_fuzzy [OF tol sample_candidates_12]
  let ?c0 = "(0::nat, sample_event ''Feyenord'' ''PSV'' ''2024-03-02T19:00:00Z'' [],
              1000::real, False, 33 / 34 :: real)"
  let ?c1 = "(1::nat, sample_event ''Feyenoord'' ''PSV'' ''2024-03-02T19:10:00Z'' [],
              600::real, True, 1::real)"
  have ex: "cand_exact ?c1" "\<not> cand_exact ?c0" by (simp_all add: cand_exact_def)
  from inst have "cand_exact ?c1 \<and> \<not> cand_exact ?c0 \<longrightarrow> cand_score ?c1 < cand_score ?c0"
    by simp
  with ex have 1: "cand_score ?c1 < cand_score ?c0" by simp
  from inst have "\<forall>c cs. [?c0, ?c1] = c # cs \<and> (\<exists>x\<in>set [?c0, ?c1]. cand_exact x)
                   \<longrightarrow> cand_exact (min_by_score c cs)"
    by blast
  with ex have 2: "cand_exact (min_by_score ?c0 [?c1])" by simp
  from tol sample_candidates_12 1 2 show ?thesis by simp
qed

text \<open>
  C5 fails on the code for a tolerance of 30 minutes. The left event is Feyenoord v PSV at
  19:00; on the right are Feyenord v PSV at 19:00, a fuzzy candidate (similarity 33/34),
  and Feyenoord v PSV at 19:25, an exact candidate. Both qualify. The exact candidate,
  1500 seconds away, scores 1500; the fuzzy candidate scores 0 + 1000; the exact score is
  not the lower one, \<open>min\<close> takes the fuzzy candidate, and \<open>match_events\<close> pairs the left
  event with it, whichever of the two comes first on the right.
\<close>

theorem match_events_prefers_fuzzy_at_30:
  "candidates_of sample_lib (sample_event ''Feyenoord'' ''PSV'' ''2024-03-02T19:00:00Z'' [])
     1709406000
     [sample_event ''Feyenord'' ''PSV'' ''2024-03-02T19:00:00Z'' [],
      sample_event ''Feyenoord'' ''PSV'' ''2024-03-02T19:25:00Z'' []]
     30 TEAM_SIMILARITY_THRESHOLD {}
   = Inr [(0, sample_event ''Feyenord'' ''PSV'' ''2024-03-02T19:00:00Z'' [], 1000, False, 33 / 34),
          (1, sample_event ''Feyenoord'' ''PSV'' ''2024-03-02T19:25:00Z'' [], 1500, True, 1)] \<and>
   cand_exact (1, sample_event ''Feyenoord'' ''PSV'' ''2024-03-02T19:25:00Z'' [], 1500, True, 1) \<and>
   \<not> cand_exact (0, sample_event ''Feyenord'' ''PSV'' ''2024-03-02T19:00:00Z'' [], 1000, False,
                  33 / 34) \<and>
   \<not> cand_score (1, sample_event ''Feyenoord'' ''PSV'' ''2024-03-02T19:25:00Z'' [], 1500, True, 1)
       < cand_score (0, sample_event ''Feyenord'' ''PSV'' ''2024-03-02T19:00:00Z'' [], 1000, False,
                     33 / 34) \<and>
   match_events sample_lib [sample_event ''Feyenoord'' ''PSV'' ''2024-03-02T19:00:00Z'' []]
     [sample_event ''Feyenord'' ''PSV'' ''2024-03-02T19:00:00Z'' [],
      sample_event ''Feyenoord'' ''PSV'' ''2024-03-02T19:25:00Z'' []]
     30 TEAM_SIMILARITY_THRESHOLD
   = [(sample_event ''Feyenoord'' ''PSV'' ''2024-03-02T19:00:00Z'' [],
       sample_event ''Feyenord'' ''PSV'' ''2024-03-02T19:00:00Z'' [])] \<and>
   match_events sample_lib [sample_event ''Feyenoord'' ''PSV'' ''2024-03-02T19:00:00Z'' []]
     [sample_event ''Feyenoord'' ''PSV'' ''2024-03-02T19:25:00Z'' [],
      sample_event ''Feyenord'' ''PSV'' ''2024-03-02T19:00:00Z'' []]
     30 TEAM_SIMILARITY_THRESHOLD
   = [(sample_event ''Feyenoord'' ''PSV'' ''2024-03-02T19:00:00Z'' [],
       sample_event ''Feyenord'' ''PSV'' ''2024-03-02T19:00:00Z'' [])]"
  by (simp add: sample_candidates_30 sample_candidates_30_exact_first match_events_def
      match_left_def sample_fields sample_parse cand_score_def cand_idx_def cand_event_def
      cand_exact_def)

lemma sample_match_two_left:
  "match_events sample_lib
     [sample_event ''Feyenoord'' ''PSV'' ''2024-03-02T19:00:00Z'' [],
      sample_event ''Feyenoord'' ''PSV'' ''2024-03-02T19:10:00Z'' []]
     [sample_event ''Feyenoord'' ''PSV'' ''2024-03-02T19:10:00Z'' []]
     12 TEAM_SIMILARITY_THRESHOLD
   = [(sample_event ''Feyenoord'' ''PSV'' ''2024-03-02T19:00:00Z'' [],
       sample_event ''Feyenoord'' ''PSV'' ''2024-03-02T19:10:00Z'' [])]"
  by (simp add: match_events_def match_left_def matcher_eval cand_score_def cand_idx_def
      cand_event_def)

theorem match_events_one_to_one_witness:
  "match_events sample_lib
     [sample_event ''Feyenoord'' ''PSV'' ''2024-03-02T19:00:00Z'' [],
      sample_event ''Feyenoord'' ''PSV'' ''2024-03-02T19:10:00Z'' []]
     [sample_event ''Feyenoord'' ''PSV'' ''2024-03-02T19:10:00Z'' []]
     12 TEAM_SIMILARITY_THRESHOLD
   = [(sample_event ''Feyenoord'' ''PSV'' ''2024-03-02T19:00:00Z'' [],
       sample_event ''Feyenoord'' ''PSV'' ''2024-03-02T19:10:00Z'' [])] \<and>
   matched_pair_invariant sample_lib 12
     (sample_event ''Feyenoord'' ''PSV'' ''2024-03-02T19:00:00Z'' [])
     (sample_event ''Feyenoord'' ''PSV'' ''2024-03-02T19:10:00Z'' [])"
proof -
  let ?L = "sample_event ''Feyenoord'' ''PSV'' ''2024-03-02T19:00:00Z'' []"
  let ?R = "sample_event ''Feyenoord'' ''PSV'' ''2024-03-02T19:10:00Z'' []"
  from match_events_one_to_one [of sample_lib "[?L, ?R]" "[?R]" 12 TEAM_SIMILARITY_THRESHOLD]
  obtain ps where
    ps: "match_events sample_lib [?L, ?R] [?R] 12 TEAM_SIMILARITY_THRESHOLD
           = map (\<lambda>(i, j). ([?L, ?R] ! i, [?R] ! j)) ps"
    and inv: "\<forall>(i, j)\<in>set ps. i < length [?L, ?R] \<and> j < length [?R] \<and>
                matched_pair_invariant sample_lib 12 ([?L, ?R] ! i) ([?R] ! j)"
    by blast
  from ps have "map (\<lambda>(i, j). ([?L, ?R] ! i, [?R] ! j)) ps = [(?L, ?R)]"
    by (simp only: sample_match_two_left)
  then obtain i j where ij: "ps = [(i, j)]" "[?L, ?R] ! i = ?L" "[?R] ! j = ?R"
    by (cases ps) auto
  with inv have "matched_pair_invariant sample_lib 12 ([?L, ?R] ! i) ([?R] ! j)"
    by simp
  with ij have "matched_pair_invariant sample_lib 12 ?L ?R" by simp
  with sample_match_two_left show ?thesis by simp
qed

section \<open>Properties of the pipeline\<close>

lemma list_sort_reverse_sorted:
  "sorted_wrt (\<lambda>a b. key a \<ge> key b) (list_sort_reverse key xs)"
proof -
  have "sorted (map key (sort_key key (rev xs)))" by simp
  then have "sorted_wrt (\<lambda>a b. key a \<le> key b) (sort_key key (rev xs))"
    by (simp add: sorted_map)
  then show ?thesis
    by (simp add: list_sort_reverse_def sorted_wrt_rev)
qed

lemma list_sort_reverse_stable:
  "filter (\<lambda>x. key x = k) (list_sort_reverse key xs) = filter (\<lambda>x. key x = k) xs"
  by (simp add: list_sort_reverse_def rev_filter [symmetric] sort_key_stable)

lemma list_sort_reverse_set: "set (list_sort_reverse key xs) = set xs"
  by (simp add: list_sort_reverse_def)

lemma list_sort_reverse_length: "length (list_sort_reverse key xs) = length xs"
  by (simp add: list_sort_reverse_def)

text \<open>
  C8. Where \<open>generate_value_bets\<close> returns, its list is the list of emitted value bets
  sorted by edge percentage in descending order, and the sort is stable: for every edge
  percentage, the bets with that value appear in the output in the order in which they
  were emitted. In the witness two books give the same edge on one outcome.
\<close>

theorem generate_value_bets_sorted_stable:
  assumes "generate_value_bets lib anchor_events soft_books time_tolerance min_edge bankroll
             = Inr bets"
  shows "\<exists>emitted.
           emitted_value_bets lib anchor_events soft_books time_tolerance min_edge bankroll
             = Inr emitted \<and>
           sorted_wrt (\<lambda>a b. vb_edge_percentage a \<ge> vb_edge_percentage b) bets \<and>
           set bets = set emitted \<and> length bets = length emitted \<and>
           (\<forall>e. filter (\<lambda>b. vb_edge_percentage b = e) bets
                = filter (\<lambda>b. vb_edge_percentage b = e) emitted)"
proof -
  from assms obtain emitted where
    em: "emitted_value_bets lib anchor_events soft_books time_tolerance min_edge bankroll
           = Inr emitted"
    and bets: "bets = list_sort_reverse vb_edge_percentage emitted"
    by (auto simp: generate_value_bets_def bind_exn_def split: sum.splits)
  show ?thesis
    unfolding bets
    using em list_sort_reverse_sorted [of vb_edge_percentage emitted]
      list_sort_reverse_stable [of vb_edge_percentage _ emitted]
      list_sort_reverse_set [of vb_edge_percentage emitted]
      list_sort_reverse_length [of vb_edge_percentage emitted]
    by blast
qed

section \<open>The pipeline on the sample fixture\<close>

lemma devig_anchor_ou:
  "remove_vig_multiplicative (float_odds [(''over'', 2), (''under'', 2), (''line'', 5 / 2)])
     = Inr (Some [(''over'', PFloat (1 / 2)), (''under'', PFloat (1 / 2))])"
  by (simp add: devig_eval)

lemma devig_anchor_btts:
  "remove_vig_multiplicative (float_odds [(''yes'', 2), (''no'', 2)])
     = Inr (Some [(''yes'', PFloat (1 / 2)), (''no'', PFloat (1 / 2))])"
  by (simp add: devig_eval)

lemma devig_soft_ou:
  "remove_vig_multiplicative (float_odds [(''over'', 21 / 10), (''under'', 9 / 5), (''line'', 5 / 2)])
     = Inr (Some [(''over'', PFloat (36 / 85)), (''under'', PFloat (49 / 85))])"
  by (simp add: devig_eval)

lemma devig_soft_btts:
  "remove_vig_multiplicative (float_odds [(''yes'', 11 / 5), (''no'', 17 / 10)])
     = Inr (Some [(''yes'', PFloat (289 / 773)), (''no'', PFloat (484 / 773))])"
  by (simp add: devig_eval)

lemmas bets_eval =
  market_bets_def outcome_bets_def dict_contains_def dict_getitem_def falsy_def or_empty_def
  calculate_edge_def kelly_stake_value KELLY_FRACTION_def MAX_STAKE_PERCENTAGE_def
  MINIMUM_EDGE_THRESHOLD_def sample_fields sample_bet_def
  devig_anchor_ou devig_anchor_btts devig_soft_ou devig_soft_btts

lemma jacks_1x2:
  "market_bets MINIMUM_EDGE_THRESHOLD 1000 ''jacks'' sample_jacks sample_anchor ''1x2'' = Inr []"
  by (simp add: bets_eval sample_jacks_def sample_anchor_def)

lemma jacks_ou:
  "market_bets MINIMUM_EDGE_THRESHOLD 1000 ''jacks'' sample_jacks sample_anchor ''ou_2_5''
     = Inr [sample_bet ''jacks'' ''ou_2_5'' ''over'' (21 / 10) (36 / 85) 5 (125 / 11) (25 / 44)]"
  by (simp add: bets_eval sample_jacks_def sample_anchor_def)

lemma jacks_btts:
  "market_bets MINIMUM_EDGE_THRESHOLD 1000 ''jacks'' sample_jacks sample_anchor ''btts''
     = Inr [sample_bet ''jacks'' ''btts'' ''yes'' (11 / 5) (289 / 773) 10 (125 / 6) (25 / 12)]"
  by (simp add: bets_eval sample_jacks_def sample_anchor_def)

lemma toto_1x2:
  "market_bets MINIMUM_EDGE_THRESHOLD 1000 ''toto'' sample_toto sample_anchor ''1x2'' = Inr []"
  by (simp add: bets_eval sample_toto_def sample_anchor_def)

lemma toto_ou:
  "market_bets MINIMUM_EDGE_THRESHOLD 1000 ''toto'' sample_toto sample_anchor ''ou_2_5'' = Inr []"
  by (simp add: bets_eval sample_toto_def sample_anchor_def)

lemma toto_btts:
  "market_bets MINIMUM_EDGE_THRESHOLD 1000 ''toto'' sample_toto sample_anchor ''btts''
     = Inr [sample_bet ''toto'' ''btts'' ''yes'' (11 / 5) (289 / 773) 10 (125 / 6) (25 / 12)]"
  by (simp add: bets_eval sample_toto_def sample_anchor_def)

lemma sample_match_single:
  "match_events sample_lib
     [sample_event ''Feyenoord'' ''PSV'' ''2024-03-02T19:00:00Z'' ms1]
     [sample_event ''Feyenoord'' ''PSV'' ''2024-03-02T19:00:00Z'' ms2]
     12 TEAM_SIMILARITY_THRESHOLD
   = [(sample_event ''Feyenoord'' ''PSV'' ''2024-03-02T19:00:00Z'' ms1,
       sample_event ''Feyenoord'' ''PSV'' ''2024-03-02T19:00:00Z'' ms2)]"
  by (simp add: match_events_def match_left_def matcher_eval cand_score_def cand_idx_def
      cand_event_def)

lemma sample_emitted:
  "emitted_value_bets sample_lib [sample_anchor]
     [(''jacks'', [sample_jacks]), (''toto'', [sample_toto])] 12 MINIMUM_EDGE_THRESHOLD 1000
   = Inr [sample_bet ''jacks'' ''ou_2_5'' ''over'' (21 / 10) (36 / 85) 5 (125 / 11) (25 / 44),
          sample_bet ''jacks'' ''btts'' ''yes'' (11 / 5) (289 / 773) 10 (125 / 6) (25 / 12),
          sample_bet ''toto'' ''btts'' ''yes'' (11 / 5) (289 / 773) 10 (125 / 6) (25 / 12)]"
proof -
  have mj: "match_events sample_lib [sample_jacks] [sample_anchor] 12 TEAM_SIMILARITY_THRESHOLD
              = [(sample_jacks, sample_anchor)]"
    unfolding sample_jacks_def sample_anchor_def by (rule sample_match_single)
  have mt: "match_events sample_lib [sample_toto] [sample_anchor] 12 TEAM_SIMILARITY_THRESHOLD
              = [(sample_toto, sample_anchor)]"
    unfolding sample_toto_def sample_anchor_def by (rule sample_match_single)
  show ?thesis
    by (simp add: emitted_value_bets_def book_bets_def pair_bets_def mj mt Let_def
        jacks_1x2 jacks_ou jacks_btts toto_1x2 toto_ou toto_btts)
qed

lemma sample_generated:
  "generate_value_bets sample_lib [sample_anchor]
     [(''jacks'', [sample_jacks]), (''toto'', [sample_toto])] 12 MINIMUM_EDGE_THRESHOLD 1000
   = Inr [sample_bet ''jacks'' ''btts'' ''yes'' (11 / 5) (289 / 773) 10 (125 / 6) (25 / 12),
          sample_bet ''toto'' ''btts'' ''yes'' (11 / 5) (289 / 773) 10 (125 / 6) (25 / 12),
          sample_bet ''jacks'' ''ou_2_5'' ''over'' (21 / 10) (36 / 85) 5 (125 / 11) (25 / 44)]"
  by (simp add: generate_value_bets_def sample_emitted list_sort_reverse_def sample_bet_def)

theorem generate_value_bets_sorted_stable_witness:
  "\<exists>b1 b2 b3.
     emitted_value_bets sample_lib [sample_anchor]
       [(''jacks'', [sample_jacks]), (''toto'', [sample_toto])] 12 MINIMUM_EDGE_THRESHOLD 1000
       = Inr [b1, b2, b3] \<and>
     generate_value_bets sample_lib [sample_anchor]
       [(''jacks'', [sample_jacks]), (''toto'', [sample_toto])] 12 MINIMUM_EDGE_THRESHOLD 1000
       = Inr [b2, b3, b1] \<and>
     map vb_edge_percentage [b1, b2, b3] = [5, 10, 10] \<and>
     map vb_bookmaker [b1, b2, b3] = [''jacks'', ''jacks'', ''toto''] \<and>
     filter (\<lambda>b. vb_edge_percentage b = 10) [b2, b3, b1]
       = filter (\<lambda>b. vb_edge_percentage b = 10) [b1, b2, b3]"
proof -
  let ?b1 = "sample_bet ''jacks'' ''ou_2_5'' ''over'' (21 / 10) (36 / 85) 5 (125 / 11) (25 / 44)"
  let ?b2 = "sample_bet ''jacks'' ''btts'' ''yes'' (11 / 5) (289 / 773) 10 (125 / 6) (25 / 12)"
  let ?b3 = "sample_bet ''toto'' ''btts'' ''yes'' (11 / 5) (289 / 773) 10 (125 / 6) (25 / 12)"
  from generate_value_bets_sorted_stable [OF sample_generated]
  have f: "filter (\<lambda>b. vb_edge_percentage b = 10) [?b2, ?b3, ?b1]
          = filter (\<lambda>b. vb_edge_percentage b = 10) [?b1, ?b2, ?b3]"
    by (simp only: sample_emitted) blast
  have e: "map vb_edge_percentage [?b1, ?b2, ?b3] = [5, 10, 10]"
    and b: "map vb_bookmaker [?b1, ?b2, ?b3] = [''jacks'', ''jacks'', ''toto'']"
    by (simp_all add: sample_bet_def)
  show ?thesis
    by (rule exI [of _ ?b1], rule exI [of _ ?b2], rule exI [of _ ?b3])
      (intro conjI sample_emitted sample_generated f e b)
qed

text \<open>
  C3 fails on the code. A soft \<open>1x2\<close> market with \<open>home\<close> and \<open>away\<close> but no \<open>draw\<close>:
  \<open>check_home_away_swap\<close> builds the swapped odds with \<open>soft_odds.get("draw")\<close>, which is
  \<open>None\<close>; \<open>1.0 / None\<close> raises \<open>TypeError\<close>, which \<open>remove_vig_multiplicative\<close> does not
  catch, and nothing above it catches it either: \<open>generate_value_bets\<close> raises.
\<close>

theorem generate_value_bets_partial_market_raises:
  "generate_value_bets sample_lib [sample_anchor] [(''jacks'', [sample_partial])] 12
     MINIMUM_EDGE_THRESHOLD 1000 = Inl TypeError"
proof -
  have m: "match_events sample_lib [sample_partial] [sample_anchor] 12 TEAM_SIMILARITY_THRESHOLD
              = [(sample_partial, sample_anchor)]"
    unfolding sample_partial_def sample_anchor_def by (rule sample_match_single)
  have mb: "market_bets MINIMUM_EDGE_THRESHOLD 1000 ''jacks'' sample_partial sample_anchor ''1x2''
              = Inl TypeError"
    by (simp add: market_bets_def dict_contains_def dict_getitem_def sample_fields
        sample_partial_def sample_anchor_def sample_partial_swap_raises)
  show ?thesis
    by (simp add: generate_value_bets_def emitted_value_bets_def book_bets_def pair_bets_def
        Let_def m mb)
qed

end
